theory Spec2Isabelle
  imports Complex_Main "HOL-Library.AList"
begin

section \<open>Python values\<close>

text \<open>
  The service of \<^verbatim>\<open>app.py\<close> handles JSON bodies and stores students as Python
  dictionaries. Values are modelled as they are at run time: a dictionary is an
  association list in insertion order with distinct keys (JSON keys are strings), a string
  is a list of code points below 256 (\<^typ>\<open>char\<close> read as Latin-1), an integer is unbounded.
  A float carries the exact rational value of the double, or one of the three special
  values; only truthiness and \<^verbatim>\<open>int()\<close> are ever applied to it. A naive
  \<^verbatim>\<open>datetime\<close> is carried as the text its \<^verbatim>\<open>isoformat()\<close> yields.
\<close>

datatype exn =
    ValueError | TypeError | KeyError | AttributeError | OverflowError
  | InvalidId | PyMongoError | BadRequest | UnsupportedMediaType

datatype pyfloat = Finite rat | PosInf | NegInf | NaN

datatype pyval =
    PNone
  | PBool bool
  | PInt int
  | PFloat pyfloat
  | PStr string
  | PList "pyval list"
  | PDict "(string \<times> pyval) list"
  | PDatetime string

type_synonym pydict = "(string \<times> pyval) list"

text \<open>Truth value of an object, as \<^verbatim>\<open>if x:\<close> and \<^verbatim>\<open>not x\<close> test it.\<close>

fun py_truthy :: "pyval \<Rightarrow> bool" where
  "py_truthy PNone = False"
| "py_truthy (PBool b) = b"
| "py_truthy (PInt n) = (n \<noteq> 0)"
| "py_truthy (PFloat f) = (f \<noteq> Finite 0)"
| "py_truthy (PStr s) = (s \<noteq> [])"
| "py_truthy (PList xs) = (xs \<noteq> [])"
| "py_truthy (PDict d) = (d \<noteq> [])"
| "py_truthy (PDatetime t) = True"

subsection \<open>Strings\<close>

definition py_isspace :: "char \<Rightarrow> bool" where
  \<comment> \<open>the characters \<^verbatim>\<open>str.strip()\<close> removes: U+0009..U+000D, U+001C..U+0020, U+0085, U+00A0\<close>
  "py_isspace c = (let n = of_char c :: nat in
     (9 \<le> n \<and> n \<le> 13) \<or> (28 \<le> n \<and> n \<le> 32) \<or> n = 133 \<or> n = 160)"

definition py_strip :: "string \<Rightarrow> string" where
  "py_strip s = rev (dropWhile py_isspace (rev (dropWhile py_isspace s)))"

text \<open>
  \<^verbatim>\<open>str.lower()\<close> on code points below 256 maps each character by itself. (On
  other code points it does not: the Greek capital sigma U+03A3 is mapped by its
  position in the word. Such strings are not values of this theory.)
\<close>

definition py_lower_char :: "char \<Rightarrow> char" where
  \<comment> \<open>A..Z and the Latin-1 capitals U+00C0..U+00DE (but the sign U+00D7) move up by 32\<close>
  "py_lower_char c = (let n = of_char c :: nat in
     if (65 \<le> n \<and> n \<le> 90) \<or> (192 \<le> n \<and> n \<le> 222 \<and> n \<noteq> 215)
     then char_of (n + 32) else c)"

definition py_lower :: "string \<Rightarrow> string" where
  "py_lower s = map py_lower_char s"

fun starts_with :: "string \<Rightarrow> string \<Rightarrow> bool" where
  "starts_with [] s = True"
| "starts_with (c # cs) [] = False"
| "starts_with (c # cs) (d # ds) = (c = d \<and> starts_with cs ds)"

text \<open>\<^verbatim>\<open>sub in s\<close> for two strings: \<open>sub\<close> occurs in \<open>s\<close> at some position.\<close>

fun py_in_str :: "string \<Rightarrow> string \<Rightarrow> bool" where
  "py_in_str sub [] = (sub = [])"
| "py_in_str sub (c # cs) = (starts_with sub (c # cs) \<or> py_in_str sub cs)"

subsection \<open>Conversions between integers and strings\<close>

definition is_digit :: "char \<Rightarrow> bool" where
  "is_digit c = (let n = of_char c :: nat in 48 \<le> n \<and> n \<le> 57)"

definition digit_val :: "char \<Rightarrow> nat" where
  "digit_val c = of_char c - 48"

definition digit_char :: "nat \<Rightarrow> char" where
  "digit_char d = char_of (48 + d)"

text \<open>\<^verbatim>\<open>str(n)\<close> for an integer: the decimal digits, with a minus sign below zero.\<close>

fun dec_digits :: "nat \<Rightarrow> string" where
  "dec_digits n = (if n < 10 then [digit_char n] else dec_digits (n div 10) @ [digit_char (n mod 10)])"

declare dec_digits.simps [simp del]

definition py_str_int :: "int \<Rightarrow> string" where
  "py_str_int n = (if n < 0 then CHR ''-'' # dec_digits (nat (- n)) else dec_digits (nat n))"

text \<open>
  \<^verbatim>\<open>int(s)\<close> for a string, base ten: white space around the number is skipped, one sign
  is allowed, then digits, where a single underscore may stand between two digits.
  Anything else is a \<^verbatim>\<open>ValueError\<close>. The white space \<^verbatim>\<open>int\<close> skips is that of
  \<^const>\<open>py_isspace\<close> without U+001C..U+001F.
\<close>

definition int_isspace :: "char \<Rightarrow> bool" where
  "int_isspace c = (let n = of_char c :: nat in
     (9 \<le> n \<and> n \<le> 13) \<or> n = 32 \<or> n = 133 \<or> n = 160)"

fun int_digits :: "nat \<Rightarrow> string \<Rightarrow> nat option" where
  "int_digits acc [] = Some acc"
| "int_digits acc (c # cs) =
     (if is_digit c then int_digits (acc * 10 + digit_val c) cs
      else if c = CHR ''_'' then
        (case cs of
           [] \<Rightarrow> None
         | d # ds \<Rightarrow> if is_digit d then int_digits (acc * 10 + digit_val d) ds else None)
      else None)"

definition int_unsigned :: "string \<Rightarrow> nat option" where
  "int_unsigned s = (case s of
       [] \<Rightarrow> None
     | c # cs \<Rightarrow> if is_digit c then int_digits (digit_val c) cs else None)"

definition py_int_str :: "string \<Rightarrow> exn + int" where
  "py_int_str s =
     (let t = rev (dropWhile int_isspace (rev (dropWhile int_isspace s))) in
      case t of
        [] \<Rightarrow> Inl ValueError
      | c # cs \<Rightarrow>
          if c = CHR ''-'' then
            (case int_unsigned cs of None \<Rightarrow> Inl ValueError | Some n \<Rightarrow> Inr (- int n))
          else if c = CHR ''+'' then
            (case int_unsigned cs of None \<Rightarrow> Inl ValueError | Some n \<Rightarrow> Inr (int n))
          else
            (case int_unsigned t of None \<Rightarrow> Inl ValueError | Some n \<Rightarrow> Inr (int n)))"

text \<open>
  \<^verbatim>\<open>int(x)\<close> for any value: an integer is itself, a boolean is 0 or 1, a finite float is
  truncated toward zero, \<^verbatim>\<open>nan\<close> is a \<^verbatim>\<open>ValueError\<close>, an infinity an
  \<^verbatim>\<open>OverflowError\<close>, a string is parsed, everything else is a \<^verbatim>\<open>TypeError\<close>.
\<close>

fun py_int :: "pyval \<Rightarrow> exn + int" where
  "py_int (PInt n) = Inr n"
| "py_int (PBool b) = Inr (if b then 1 else 0)"
| "py_int (PFloat (Finite q)) = Inr (if 0 \<le> q then \<lfloor>q\<rfloor> else \<lceil>q\<rceil>)"
| "py_int (PFloat NaN) = Inl ValueError"
| "py_int (PFloat PosInf) = Inl OverflowError"
| "py_int (PFloat NegInf) = Inl OverflowError"
| "py_int (PStr s) = py_int_str s"
| "py_int PNone = Inl TypeError"
| "py_int (PList xs) = Inl TypeError"
| "py_int (PDict d) = Inl TypeError"
| "py_int (PDatetime t) = Inl TypeError"

subsection \<open>Dictionaries and containers\<close>

text \<open>\<^verbatim>\<open>d[k]\<close> on a dictionary; a missing key is a \<^verbatim>\<open>KeyError\<close>.\<close>

definition dict_get :: "pydict \<Rightarrow> string \<Rightarrow> exn + pyval" where
  "dict_get d k = (case map_of d k of None \<Rightarrow> Inl KeyError | Some v \<Rightarrow> Inr v)"

text \<open>
  \<^verbatim>\<open>x[k]\<close> with a string key on any value: only a dictionary can be indexed so; a list or
  a string raises \<^verbatim>\<open>TypeError\<close> (indices must be integers), so does every other value
  (not subscriptable).
\<close>

fun py_getitem :: "pyval \<Rightarrow> string \<Rightarrow> exn + pyval" where
  "py_getitem (PDict d) k = dict_get d k"
| "py_getitem v k = Inl TypeError"

text \<open>
  \<^verbatim>\<open>k in x\<close> with a string \<open>k\<close>: key membership for a dictionary, element membership
  for a list, substring test for a string; other values are not iterable.
\<close>

fun py_contains :: "string \<Rightarrow> pyval \<Rightarrow> exn + bool" where
  "py_contains k (PDict d) = Inr (k \<in> fst ` set d)"
| "py_contains k (PList xs) = Inr (PStr k \<in> set xs)"
| "py_contains k (PStr s) = Inr (py_in_str k s)"
| "py_contains k v = Inl TypeError"

text \<open>
  \<^verbatim>\<open>x[k] = v\<close> with a string key: a dictionary keeps the position of a key it has
  and appends a new one; no other JSON value accepts the assignment.
\<close>

fun py_setitem :: "pyval \<Rightarrow> string \<Rightarrow> pyval \<Rightarrow> exn + pyval" where
  "py_setitem (PDict d) k v = Inr (PDict (AList.update k v d))"
| "py_setitem x k v = Inl TypeError"

text \<open>\<^verbatim>\<open>x.strip()\<close> and \<^verbatim>\<open>x.lower()\<close>: only a string has the methods.\<close>

fun strip_of :: "pyval \<Rightarrow> exn + string" where
  "strip_of (PStr s) = Inr (py_strip s)"
| "strip_of v = Inl AttributeError"

fun lower_of :: "pyval \<Rightarrow> exn + string" where
  "lower_of (PStr s) = Inr (py_lower s)"
| "lower_of v = Inl AttributeError"

text \<open>Sequencing of computations that may raise: the first exception ends the run.\<close>

fun and_then :: "exn + 'a \<Rightarrow> ('a \<Rightarrow> exn + 'b) \<Rightarrow> exn + 'b" where
  "and_then (Inl e) f = Inl e"
| "and_then (Inr x) f = f x"

section \<open>The record store\<close>

text \<open>
  The MongoDB driver is not part of the repository: its calls are parameters. The type
  \<open>'c\<close> is the content of the collection, \<open>'oid\<close> the identifiers of its documents.
  Every call may raise. A document is its \<^verbatim>\<open>_id\<close> together with its other fields.
  \<open>find_all\<close> is \<^verbatim>\<open>find()\<close>, \<open>find_regex\<close> is \<^verbatim>\<open>find\<close> with a
  case-insensitive pattern on the name, \<open>str_oid\<close> is \<^verbatim>\<open>str\<close> on an identifier.
\<close>

type_synonym 'oid mongo_doc = "'oid \<times> pydict"

record ('c, 'oid) driver =
  insert_one :: "'c \<Rightarrow> pydict \<Rightarrow> exn + ('oid \<times> 'c)"
  find_all :: "'c \<Rightarrow> exn + 'oid mongo_doc list"
  find_one :: "'c \<Rightarrow> 'oid \<Rightarrow> exn + 'oid mongo_doc option"
  delete_one :: "'c \<Rightarrow> 'oid \<Rightarrow> exn + (nat \<times> 'c)"
  find_regex :: "'c \<Rightarrow> string \<Rightarrow> exn + 'oid mongo_doc list"
  ObjectId :: "string \<Rightarrow> exn + 'oid"
  str_oid :: "'oid \<Rightarrow> string"

text \<open>The module's globals: the connection flag, the collection and the fallback list.\<close>

record 'c state =
  DB_CONNECTED :: bool
  students_collection :: "'c option"
  SAMPLE_STUDENTS :: "pydict list"

definition sample_seed :: "pydict list" where
  "sample_seed =
    [[(''_id'', PStr ''1''), (''name'', PStr ''John Doe''), (''age'', PInt 20)],
     [(''_id'', PStr ''2''), (''name'', PStr ''Jane Smith''), (''age'', PInt 22)],
     [(''_id'', PStr ''3''), (''name'', PStr ''Alice Johnson''), (''age'', PInt 19)],
     [(''_id'', PStr ''4''), (''name'', PStr ''Bob Wilson''), (''age'', PInt 21)]]"

text \<open>
  \<^verbatim>\<open>connect_to_mongodb\<close>: no URI, or a failed connection, gives the fallback mode.
  \<open>connect\<close> stands for opening the client, the ping and the choice of the collection.
\<close>

definition connect_to_mongodb :: "string option \<Rightarrow> (string \<Rightarrow> exn + 'c) \<Rightarrow> 'c option \<times> bool" where
  "connect_to_mongodb uri connect =
     (case uri of
        None \<Rightarrow> (None, False)
      | Some u \<Rightarrow>
          if u = [] then (None, False)
          else (case connect u of Inl e \<Rightarrow> (None, False) | Inr c \<Rightarrow> (Some c, True)))"

definition initial_state :: "string option \<Rightarrow> (string \<Rightarrow> exn + 'c) \<Rightarrow> 'c state" where
  "initial_state uri connect =
     (let (coll, ok) = connect_to_mongodb uri connect in
      \<lparr>DB_CONNECTED = ok, students_collection = coll, SAMPLE_STUDENTS = sample_seed\<rparr>)"

text \<open>The test \<^verbatim>\<open>DB_CONNECTED and students_collection is not None\<close> of every operation.\<close>

definition active_collection :: "'c state \<Rightarrow> 'c option" where
  "active_collection st = (if DB_CONNECTED st then students_collection st else None)"

fun sample_int_ids :: "pydict list \<Rightarrow> exn + int list" where
  "sample_int_ids [] = Inr []"
| "sample_int_ids (s # ss) =
     and_then (dict_get s ''_id'') (\<lambda>v.
     and_then (py_int v) (\<lambda>n.
     and_then (sample_int_ids ss) (\<lambda>ns. Inr (n # ns))))"

definition get_next_sample_id :: "pydict list \<Rightarrow> exn + string" where
  "get_next_sample_id samples =
     (if samples = [] then Inr ''1''
      else and_then (sample_int_ids samples) (\<lambda>ns.
        case ns of
          [] \<Rightarrow> Inl ValueError
        | n # rest \<Rightarrow> Inr (py_str_int (fold max rest n + 1))))"

definition add_student ::
  "('c, 'oid) driver \<Rightarrow> string \<Rightarrow> 'c state \<Rightarrow> pyval \<Rightarrow> exn + (pydict \<times> 'c state)" where
  "add_student drv now st data =
     and_then (py_getitem data ''name'') (\<lambda>name.
     and_then (py_getitem data ''age'') (\<lambda>age.
       let student = [(''name'', name), (''age'', age), (''created_at'', PDatetime now)] in
       case active_collection st of
         Some c \<Rightarrow>
           and_then (insert_one drv c student) (\<lambda>(oid, c').
             Inr (AList.update ''_id'' (PStr (str_oid drv oid)) student,
                  st\<lparr>students_collection := Some c'\<rparr>))
       | None \<Rightarrow>
           and_then (get_next_sample_id (SAMPLE_STUDENTS st)) (\<lambda>new_id.
             let student1 = AList.update ''_id'' (PStr new_id) student;
                 student2 = AList.update ''created_at'' (PStr now) student1
             in Inr (student2, st\<lparr>SAMPLE_STUDENTS := SAMPLE_STUDENTS st @ [student2]\<rparr>))))"

text \<open>The projection of the connected listings: \<^verbatim>\<open>_id\<close> as a string, name and age.\<close>

definition project_doc :: "('c, 'oid) driver \<Rightarrow> 'oid mongo_doc \<Rightarrow> exn + pydict" where
  "project_doc drv doc =
     and_then (dict_get (snd doc) ''name'') (\<lambda>name.
     and_then (dict_get (snd doc) ''age'') (\<lambda>age.
       Inr [(''_id'', PStr (str_oid drv (fst doc))), (''name'', name), (''age'', age)]))"

fun project_docs :: "('c, 'oid) driver \<Rightarrow> 'oid mongo_doc list \<Rightarrow> exn + pydict list" where
  "project_docs drv [] = Inr []"
| "project_docs drv (doc # docs) =
     and_then (project_doc drv doc) (\<lambda>p.
     and_then (project_docs drv docs) (\<lambda>ps. Inr (p # ps)))"

definition get_students :: "('c, 'oid) driver \<Rightarrow> 'c state \<Rightarrow> pydict list" where
  "get_students drv st =
     (case (case active_collection st of
              Some c \<Rightarrow> and_then (find_all drv c) (project_docs drv)
            | None \<Rightarrow> Inr (SAMPLE_STUDENTS st)) of
        Inr students \<Rightarrow> students
      | Inl e \<Rightarrow> SAMPLE_STUDENTS st)"

text \<open>
  \<^verbatim>\<open>next((s for s in SAMPLE_STUDENTS if s["_id"] == student_id), None)\<close>: the first
  sample with the identifier. Only a string equals the string \<open>student_id\<close>.
\<close>

fun first_with_id :: "pydict list \<Rightarrow> string \<Rightarrow> exn + pydict option" where
  "first_with_id [] student_id = Inr None"
| "first_with_id (s # ss) student_id =
     and_then (dict_get s ''_id'') (\<lambda>v.
       if v = PStr student_id then Inr (Some s) else first_with_id ss student_id)"

definition get_student_by_id ::
  "('c, 'oid) driver \<Rightarrow> 'c state \<Rightarrow> string \<Rightarrow> exn + pydict option" where
  "get_student_by_id drv st student_id =
     (case (case active_collection st of
              Some c \<Rightarrow>
                and_then (ObjectId drv student_id) (\<lambda>oid.
                and_then (find_one drv c oid) (\<lambda>found.
                  Inr (case found of
                         None \<Rightarrow> None
                       | Some doc \<Rightarrow> Some ((''_id'', PStr (str_oid drv (fst doc))) # snd doc))))
            | None \<Rightarrow> first_with_id (SAMPLE_STUDENTS st) student_id) of
        Inr student \<Rightarrow> Inr student
      | Inl e \<Rightarrow> first_with_id (SAMPLE_STUDENTS st) student_id)"

definition deleted_message :: pydict where
  "deleted_message = [(''message'', PStr ''Student deleted successfully'')]"

definition error_dict :: "string \<Rightarrow> pydict" where
  "error_dict msg = [(''error'', PStr msg)]"

text \<open>
  \<^verbatim>\<open>SAMPLE_STUDENTS.remove(student_to_remove)\<close> removes the first element equal to the
  one found; the one found is the first with its identifier, so it is that element.
\<close>

definition delete_student ::
  "('c, 'oid) driver \<Rightarrow> 'c state \<Rightarrow> string \<Rightarrow> pydict \<times> 'c state" where
  "delete_student drv st student_id =
     (case (case active_collection st of
              Some c \<Rightarrow>
                and_then (ObjectId drv student_id) (\<lambda>oid.
                and_then (delete_one drv c oid) (\<lambda>(deleted_count, c').
                  Inr (if deleted_count > 0 then deleted_message
                       else error_dict ''Student not found'',
                       st\<lparr>students_collection := Some c'\<rparr>)))
            | None \<Rightarrow>
                and_then (first_with_id (SAMPLE_STUDENTS st) student_id) (\<lambda>student_to_remove.
                  case student_to_remove of
                    Some s \<Rightarrow>
                      if py_truthy (PDict s)
                      then Inr (deleted_message,
                                st\<lparr>SAMPLE_STUDENTS := remove1 s (SAMPLE_STUDENTS st)\<rparr>)
                      else Inr (error_dict ''Student not found'', st)
                  | None \<Rightarrow> Inr (error_dict ''Student not found'', st))) of
        Inr r \<Rightarrow> r
      | Inl e \<Rightarrow> (error_dict ''Failed to delete student'', st))"

text \<open>The fallback search: \<^verbatim>\<open>name.lower() in s["name"].lower()\<close> over the samples.\<close>

fun sample_matches :: "pydict list \<Rightarrow> string \<Rightarrow> exn + pydict list" where
  "sample_matches [] name = Inr []"
| "sample_matches (s # ss) name =
     and_then (dict_get s ''name'') (\<lambda>v.
     and_then (lower_of v) (\<lambda>l.
     and_then (sample_matches ss name) (\<lambda>rest.
       Inr (if py_in_str (py_lower name) l then s # rest else rest))))"

definition search_students_by_name ::
  "('c, 'oid) driver \<Rightarrow> 'c state \<Rightarrow> string \<Rightarrow> exn + pydict list" where
  "search_students_by_name drv st name =
     (case (case active_collection st of
              Some c \<Rightarrow> and_then (find_regex drv c (''.*'' @ name @ ''.*'')) (project_docs drv)
            | None \<Rightarrow> sample_matches (SAMPLE_STUDENTS st) name) of
        Inr students \<Rightarrow> Inr students
      | Inl e \<Rightarrow> sample_matches (SAMPLE_STUDENTS st) name)"

section \<open>The request handlers\<close>

text \<open>A response is the value given to \<^verbatim>\<open>jsonify\<close> and the status code.\<close>

type_synonym response = "pyval \<times> nat"

definition error_response :: "string \<Rightarrow> nat \<Rightarrow> response" where
  "error_response msg code = (PDict (error_dict msg), code)"

definition missing_fields_message :: string where
  "missing_fields_message = ''Missing required fields: 'name' and 'age'' @ [CHR 0x27]"

text \<open>\<^verbatim>\<open>"name" not in data or "age" not in data\<close>, evaluated left to right.\<close>

definition missing_fields :: "pyval \<Rightarrow> exn + bool" where
  "missing_fields data =
     and_then (py_contains ''name'' data) (\<lambda>has_name.
       if \<not> has_name then Inr True
       else and_then (py_contains ''age'' data) (\<lambda>has_age. Inr (\<not> has_age)))"

text \<open>
  The inner \<^verbatim>\<open>try\<close> of \<^verbatim>\<open>add\<close>: it either answers 400 (\<open>Inl\<close>) or goes on with the
  body whose age is the integer (\<open>Inr\<close>). Only \<^verbatim>\<open>ValueError\<close> and \<^verbatim>\<open>TypeError\<close>
  are caught there; any other exception leaves the block.
\<close>

definition validate_age :: "pyval \<Rightarrow> exn + (response + pyval)" where
  "validate_age data =
     (case and_then (py_getitem data ''age'') (\<lambda>raw.
           and_then (py_int raw) (\<lambda>age.
             if age < 0 \<or> age > 150
             then Inr (Inl (error_response ''Age must be between 0 and 150'' 400))
             else and_then (py_setitem data ''age'' (PInt age)) (\<lambda>data'. Inr (Inr data')))) of
        Inr r \<Rightarrow> Inr r
      | Inl e \<Rightarrow>
          if e = ValueError \<or> e = TypeError
          then Inr (Inl (error_response ''Age must be a valid number'' 400))
          else Inl e)"

text \<open>
  \<^verbatim>\<open>POST /students\<close>. The argument \<open>req\<close> is what \<^verbatim>\<open>request.get_json()\<close> does: it
  returns the parsed body or raises (wrong content type, text that is not JSON). \<open>now\<close>
  is the reading of \<^verbatim>\<open>datetime.utcnow()\<close>.
\<close>

definition add ::
  "('c, 'oid) driver \<Rightarrow> string \<Rightarrow> 'c state \<Rightarrow> exn + pyval \<Rightarrow> response \<times> 'c state" where
  "add drv now st req =
     (case and_then req (\<lambda>data.
           if \<not> py_truthy data then Inr (error_response ''No JSON data provided'' 400, st)
           else
           and_then (missing_fields data) (\<lambda>missing.
             if missing then Inr (error_response missing_fields_message 400, st)
             else
             and_then (validate_age data) (\<lambda>checked.
               case checked of
                 Inl resp \<Rightarrow> Inr (resp, st)
               | Inr data' \<Rightarrow>
                   and_then (py_getitem data' ''name'') (\<lambda>name.
                   and_then (strip_of name) (\<lambda>stripped.
                     if stripped = [] then Inr (error_response ''Name cannot be empty'' 400, st)
                     else
                     and_then (add_student drv now st data') (\<lambda>(student, st').
                       Inr ((PDict student, 201), st'))))))) of
        Inr r \<Rightarrow> r
      | Inl e \<Rightarrow> (error_response ''Failed to add student'' 500, st))"

text \<open>\<^verbatim>\<open>GET /students\<close>.\<close>

definition get_all :: "('c, 'oid) driver \<Rightarrow> 'c state \<Rightarrow> response" where
  "get_all drv st = (PList (map PDict (get_students drv st)), 200)"

text \<open>\<^verbatim>\<open>GET /students/<id>\<close>.\<close>

definition get_by_id :: "('c, 'oid) driver \<Rightarrow> 'c state \<Rightarrow> string \<Rightarrow> response" where
  "get_by_id drv st student_id =
     (case get_student_by_id drv st student_id of
        Inr found \<Rightarrow>
          (case found of
             Some student \<Rightarrow>
               if py_truthy (PDict student) then (PDict student, 200)
               else error_response ''Student not found'' 404
           | None \<Rightarrow> error_response ''Student not found'' 404)
      | Inl e \<Rightarrow> error_response ''Failed to retrieve student'' 500)"

text \<open>\<^verbatim>\<open>DELETE /students/<id>\<close>. \<^verbatim>\<open>delete_student\<close> never raises.\<close>

definition delete :: "('c, 'oid) driver \<Rightarrow> 'c state \<Rightarrow> string \<Rightarrow> response \<times> 'c state" where
  "delete drv st student_id =
     (let (result, st') = delete_student drv st student_id in
      if ''error'' \<in> fst ` set result then ((PDict result, 404), st')
      else ((PDict result, 200), st'))"

text \<open>\<^verbatim>\<open>GET /students/name/<name>\<close>.\<close>

definition get_by_name :: "('c, 'oid) driver \<Rightarrow> 'c state \<Rightarrow> string \<Rightarrow> response" where
  "get_by_name drv st name =
     (case search_students_by_name drv st name of
        Inr students_list \<Rightarrow>
          if students_list \<noteq> [] then (PList (map PDict students_list), 200)
          else error_response ''No students found with the given name'' 404
      | Inl e \<Rightarrow> error_response ''Failed to search students'' 500)"

section \<open>Runs of the service\<close>

text \<open>
  One request to the HTTP surface. A \<open>POST\<close> carries what \<^verbatim>\<open>get_json()\<close> does with
  its body and the reading of the clock when it is served.
\<close>

datatype request =
    POST "exn + pyval" string
  | GET_ALL
  | GET_BY_ID string
  | DELETE string
  | GET_BY_NAME string

fun serve :: "('c, 'oid) driver \<Rightarrow> 'c state \<Rightarrow> request \<Rightarrow> response \<times> 'c state" where
  "serve drv st (POST req now) = add drv now st req"
| "serve drv st GET_ALL = (get_all drv st, st)"
| "serve drv st (GET_BY_ID student_id) = (get_by_id drv st student_id, st)"
| "serve drv st (DELETE student_id) = delete drv st student_id"
| "serve drv st (GET_BY_NAME name) = (get_by_name drv st name, st)"

text \<open>The identifier a Create hands out: the \<^verbatim>\<open>_id\<close> of the body of a 201 response.\<close>

definition created_id :: "request \<Rightarrow> response \<Rightarrow> string list" where
  "created_id rq resp =
     (case rq of
        POST req now \<Rightarrow>
          (case resp of
             (PDict d, code) \<Rightarrow>
               if code = 201
               then (case map_of d ''_id'' of Some (PStr i) \<Rightarrow> [i] | _ \<Rightarrow> [])
               else []
           | _ \<Rightarrow> [])
      | _ \<Rightarrow> [])"

text \<open>
  Serving a sequence of requests one after the other (the requests of one process):
  the identifiers handed out by its Creates, and the state it ends in.
\<close>

fun run :: "('c, 'oid) driver \<Rightarrow> 'c state \<Rightarrow> request list \<Rightarrow> string list \<times> 'c state" where
  "run drv st [] = ([], st)"
| "run drv st (rq # rqs) =
     (let (resp, st1) = serve drv st rq;
          (issued, st2) = run drv st1 rqs
      in (created_id rq resp @ issued, st2))"

section \<open>Notions of the specification\<close>

text \<open>A string is empty after trimming: it has white space only.\<close>

definition whitespace_only :: "string \<Rightarrow> bool" where
  "whitespace_only s = (\<forall>c \<in> set s. py_isspace c)"

text \<open>\<open>sub\<close> is a substring of \<open>s\<close>: it stands in \<open>s\<close> between a prefix and a suffix.\<close>

definition contains_substring :: "string \<Rightarrow> string \<Rightarrow> bool" where
  "contains_substring sub s = (\<exists>p r. s = p @ sub @ r)"

text \<open>The name of a student contains the query as a substring, ignoring case.\<close>

definition name_contains :: "string \<Rightarrow> pydict \<Rightarrow> bool" where
  "name_contains query s =
     (\<exists>nm. map_of s ''name'' = Some (PStr nm) \<and> contains_substring (py_lower query) (py_lower nm))"

text \<open>The keys of a dictionary, in its order.\<close>

definition keys :: "pydict \<Rightarrow> string list" where
  "keys d = map fst d"

text \<open>
  The record set of the active backend is what the listing shows; its identifiers are
  the \<^verbatim>\<open>_id\<close> strings of the listed records.
\<close>

definition record_ids :: "('c, 'oid) driver \<Rightarrow> 'c state \<Rightarrow> string set" where
  "record_ids drv st = {i. \<exists>s \<in> set (get_students drv st). map_of s ''_id'' = Some (PStr i)}"

text \<open>
  The samples the fallback mode works on: every sample has a string \<^verbatim>\<open>_id\<close> that
  \<^verbatim>\<open>int\<close> reads and a string \<^verbatim>\<open>name\<close>, and no two samples share an \<^verbatim>\<open>_id\<close>. The
  seed has the property and the operations keep it.
\<close>

definition sample_ok :: "pydict \<Rightarrow> bool" where
  "sample_ok s =
     ((case map_of s ''_id'' of
         Some (PStr i) \<Rightarrow> (case py_int_str i of Inr n \<Rightarrow> True | Inl e \<Rightarrow> False)
       | _ \<Rightarrow> False) \<and>
      (case map_of s ''name'' of Some (PStr nm) \<Rightarrow> True | _ \<Rightarrow> False))"

definition samples_ok :: "pydict list \<Rightarrow> bool" where
  "samples_ok samples =
     (list_all sample_ok samples \<and> distinct (map (\<lambda>s. map_of s ''_id'') samples))"

definition sample_id_strings :: "pydict list \<Rightarrow> string set" where
  "sample_id_strings samples = {i. \<exists>s \<in> set samples. map_of s ''_id'' = Some (PStr i)}"

text \<open>The number the next fallback identifier is made of: one more than the largest.\<close>

definition next_sample_number :: "pydict list \<Rightarrow> int" where
  "next_sample_number samples =
     (if samples = [] then 1
      else Max {n. \<exists>i \<in> sample_id_strings samples. py_int_str i = Inr n} + 1)"

section \<open>Drivers to run the service on\<close>

text \<open>A driver whose every call raises, as the real one does once the server is gone.\<close>

definition down_driver :: "(unit, unit) driver" where
  "down_driver =
     \<lparr>insert_one = (\<lambda>c doc. Inl PyMongoError),
      find_all = (\<lambda>c. Inl PyMongoError),
      find_one = (\<lambda>c oid. Inl PyMongoError),
      delete_one = (\<lambda>c oid. Inl PyMongoError),
      find_regex = (\<lambda>c pat. Inl PyMongoError),
      ObjectId = (\<lambda>s. Inr ()),
      str_oid = (\<lambda>oid. [])\<rparr>"

text \<open>
  A collection held as a list of documents numbered by natural numbers: a stand-in to
  run the connected branches on. It is no model of MongoDB, and no theorem below is
  about it: the theorems hold for every driver.
\<close>

definition list_driver :: "(nat mongo_doc list, nat) driver" where
  "list_driver =
     \<lparr>insert_one = (\<lambda>c doc. let n = Suc (fold max (map fst c) 0) in Inr (n, c @ [(n, doc)])),
      find_all = (\<lambda>c. Inr c),
      find_one = (\<lambda>c oid. Inr (List.find (\<lambda>d. fst d = oid) c)),
      delete_one = (\<lambda>c oid.
        if oid \<in> fst ` set c then Inr (1, filter (\<lambda>d. fst d \<noteq> oid) c) else Inr (0, c)),
      find_regex = (\<lambda>c pat. Inl PyMongoError),
      ObjectId = (\<lambda>s. case py_int_str s of
                         Inl e \<Rightarrow> Inl InvalidId
                       | Inr n \<Rightarrow> if n < 0 then Inl InvalidId else Inr (nat n)),
      str_oid = (\<lambda>oid. py_str_int (int oid))\<rparr>"

text \<open>Two ways the start of the process can go: no server answers, or an empty collection.\<close>

definition never_connects :: "string \<Rightarrow> exn + unit" where
  "never_connects uri = Inl PyMongoError"

definition connects_empty :: "string \<Rightarrow> exn + nat mongo_doc list" where
  "connects_empty uri = Inr []"

definition fallback_state :: "pydict list \<Rightarrow> unit state" where
  "fallback_state samples =
     \<lparr>DB_CONNECTED = False, students_collection = None, SAMPLE_STUDENTS = samples\<rparr>"

definition connected_state :: "'c \<Rightarrow> 'c state" where
  "connected_state c =
     \<lparr>DB_CONNECTED = True, students_collection = Some c, SAMPLE_STUDENTS = sample_seed\<rparr>"

section \<open>Strings and numbers\<close>

lemma starts_with_iff: "starts_with sub s \<longleftrightarrow> (\<exists>r. s = sub @ r)"
  by (induction sub s rule: starts_with.induct) auto

lemma py_in_str_iff: "py_in_str sub s \<longleftrightarrow> contains_substring sub s"
proof (induction s)
  case Nil
  then show ?case by (auto simp: contains_substring_def)
next
  case (Cons c cs)
  have "contains_substring sub (c # cs) \<longleftrightarrow> starts_with sub (c # cs) \<or> contains_substring sub cs"
  proof
    assume "contains_substring sub (c # cs)"
    then obtain p r where eq: "c # cs = p @ sub @ r"
      by (auto simp: contains_substring_def)
    show "starts_with sub (c # cs) \<or> contains_substring sub cs"
    proof (cases p)
      case Nil
      with eq show ?thesis by (auto simp: starts_with_iff)
    next
      case (Cons a p')
      with eq have "cs = p' @ sub @ r" by simp
      then show ?thesis by (auto simp: contains_substring_def)
    qed
  next
    assume "starts_with sub (c # cs) \<or> contains_substring sub cs"
    then show "contains_substring sub (c # cs)"
    proof
      assume "starts_with sub (c # cs)"
      then obtain r where "c # cs = [] @ sub @ r" by (auto simp: starts_with_iff)
      then show ?thesis unfolding contains_substring_def by blast
    next
      assume "contains_substring sub cs"
      then obtain p r where "cs = p @ sub @ r" by (auto simp: contains_substring_def)
      then have "c # cs = (c # p) @ sub @ r" by simp
      then show ?thesis unfolding contains_substring_def by blast
    qed
  qed
  with Cons show ?case by simp
qed

lemma dropWhile_all_iff: "(\<forall>x \<in> set (dropWhile P s). P x) \<longleftrightarrow> (\<forall>x \<in> set s. P x)"
proof
  assume a: "\<forall>x \<in> set (dropWhile P s). P x"
  have "dropWhile P s = []"
  proof (rule ccontr)
    assume ne: "dropWhile P s \<noteq> []"
    then have "\<not> P (hd (dropWhile P s))" by (rule hd_dropWhile)
    moreover from ne have "hd (dropWhile P s) \<in> set (dropWhile P s)" by simp
    ultimately show False using a by blast
  qed
  then show "\<forall>x \<in> set s. P x" by (simp add: dropWhile_eq_Nil_conv)
next
  assume "\<forall>x \<in> set s. P x"
  then show "\<forall>x \<in> set (dropWhile P s). P x" by (auto dest: set_dropWhileD)
qed

lemma py_strip_empty_iff: "py_strip s = [] \<longleftrightarrow> whitespace_only s"
proof -
  have "py_strip s = [] \<longleftrightarrow> (\<forall>x \<in> set (dropWhile py_isspace s). py_isspace x)"
    by (simp add: py_strip_def dropWhile_eq_Nil_conv)
  then show ?thesis by (simp add: dropWhile_all_iff whitespace_only_def)
qed

lemma strip_fixed:
  assumes "s \<noteq> []" "\<not> P (hd s)" "\<not> P (last s)"
  shows "rev (dropWhile P (rev (dropWhile P s))) = s"
proof -
  from assms have 1: "dropWhile P s = s" by (cases s) auto
  from assms have "rev s \<noteq> []" "\<not> P (hd (rev s))" by (auto simp: hd_rev)
  then have "dropWhile P (rev s) = rev s" by (cases "rev s") auto
  with 1 show ?thesis by simp
qed

lemma is_digit_props:
  assumes "is_digit c"
  shows "\<not> int_isspace c" "c \<noteq> CHR ''-''" "c \<noteq> CHR ''+''"
  using assms by (auto simp: is_digit_def int_isspace_def Let_def)

lemma digit_char_props:
  assumes "d < 10"
  shows "is_digit (digit_char d)" "digit_val (digit_char d) = d"
    "\<not> int_isspace (digit_char d)" "digit_char d \<noteq> CHR ''-''" "digit_char d \<noteq> CHR ''+''"
proof -
  from assms show d: "is_digit (digit_char d)" and "digit_val (digit_char d) = d"
    by (auto simp: is_digit_def digit_char_def digit_val_def Let_def)
  from d show "\<not> int_isspace (digit_char d)" "digit_char d \<noteq> CHR ''-''"
    "digit_char d \<noteq> CHR ''+''"
    by (rule is_digit_props)+
qed

lemma dec_digits_nonempty: "dec_digits n \<noteq> []"
  by (subst dec_digits.simps) simp

lemma dec_digits_digits: "c \<in> set (dec_digits n) \<Longrightarrow> \<exists>d < 10. c = digit_char d"
proof (induction n arbitrary: c rule: dec_digits.induct)
  case (1 n)
  show ?case
  proof (cases "n < 10")
    case True
    with "1.prems" show ?thesis by (subst (asm) dec_digits.simps) auto
  next
    case False
    with "1.prems" have "c \<in> set (dec_digits (n div 10)) \<or> c = digit_char (n mod 10)"
      by (subst (asm) dec_digits.simps) auto
    then show ?thesis
    proof
      assume "c \<in> set (dec_digits (n div 10))"
      with False "1.IH" show ?thesis by blast
    next
      assume "c = digit_char (n mod 10)"
      moreover have "n mod 10 < 10" by simp
      ultimately show ?thesis by blast
    qed
  qed
qed

lemma int_digits_append:
  "\<forall>c \<in> set ds. is_digit c \<Longrightarrow>
   int_digits acc (ds @ rest) = int_digits (foldl (\<lambda>a c. a * 10 + digit_val c) acc ds) rest"
  by (induction ds arbitrary: acc) simp_all

lemma foldl_dec_digits:
  "foldl (\<lambda>a c. a * 10 + digit_val c) acc (dec_digits n) = acc * 10 ^ length (dec_digits n) + n"
proof (induction n arbitrary: acc rule: dec_digits.induct)
  case (1 n)
  show ?case
  proof (cases "n < 10")
    case True
    then show ?thesis by (subst (1 2) dec_digits.simps) (simp add: digit_char_props)
  next
    case False
    have md: "n mod 10 < 10" by simp
    from False "1.IH" show ?thesis
      by (subst (1 2) dec_digits.simps) (simp add: digit_char_props(2)[OF md] algebra_simps)
  qed
qed

lemma int_unsigned_dec_digits: "int_unsigned (dec_digits n) = Some n"
proof -
  obtain c cs where eq: "dec_digits n = c # cs"
    using dec_digits_nonempty [of n] by (cases "dec_digits n") auto
  have all: "\<forall>x \<in> set (c # cs). \<exists>d < 10. x = digit_char d"
    using dec_digits_digits [of _ n] eq by metis
  then have c: "is_digit c" by (auto simp: digit_char_props)
  from all have "\<forall>x \<in> set cs. is_digit x" by (auto simp: digit_char_props)
  then have "int_digits (digit_val c) (cs @ []) =
      int_digits (foldl (\<lambda>a c. a * 10 + digit_val c) (digit_val c) cs) []"
    by (rule int_digits_append)
  also have "foldl (\<lambda>a c. a * 10 + digit_val c) (digit_val c) cs =
      foldl (\<lambda>a c. a * 10 + digit_val c) 0 (dec_digits n)"
    by (simp add: eq)
  also have "\<dots> = n" by (simp add: foldl_dec_digits)
  finally show ?thesis using c by (simp add: int_unsigned_def eq)
qed

lemma dec_digits_ends:
  "\<exists>d < 10. hd (dec_digits n) = digit_char d" "\<exists>d < 10. last (dec_digits n) = digit_char d"
  using dec_digits_digits [of "hd (dec_digits n)" n] dec_digits_digits [of "last (dec_digits n)" n]
    dec_digits_nonempty [of n] by auto

lemma py_int_str_roundtrip: "py_int_str (py_str_int n) = Inr n"
proof (cases "n < 0")
  case True
  let ?s = "CHR ''-'' # dec_digits (nat (- n))"
  have "\<not> int_isspace (last ?s)"
    using dec_digits_ends(2) [of "nat (- n)"] dec_digits_nonempty [of "nat (- n)"]
    by (auto simp: digit_char_props)
  moreover have "\<not> int_isspace (hd ?s)" by (simp add: int_isspace_def)
  ultimately have "rev (dropWhile int_isspace (rev (dropWhile int_isspace ?s))) = ?s"
    by (intro strip_fixed) simp_all
  with True show ?thesis
    by (simp add: py_int_str_def py_str_int_def int_unsigned_dec_digits del: dropWhile.simps)
next
  case False
  let ?s = "dec_digits (nat n)"
  obtain c cs where eq: "?s = c # cs"
    using dec_digits_nonempty [of "nat n"] by (cases ?s) auto
  have "\<not> int_isspace (last ?s)" "\<not> int_isspace (hd ?s)"
    using dec_digits_ends [of "nat n"] by (auto simp: digit_char_props)
  then have fx: "rev (dropWhile int_isspace (rev (dropWhile int_isspace ?s))) = ?s"
    by (intro strip_fixed) (simp_all add: dec_digits_nonempty)
  have "c \<noteq> CHR ''-''" "c \<noteq> CHR ''+''"
    using dec_digits_ends(1) [of "nat n"] eq by (auto simp: digit_char_props)
  with False fx show ?thesis
    using int_unsigned_dec_digits [of "nat n"]
    by (simp add: py_int_str_def py_str_int_def eq del: dropWhile.simps)
qed

lemma py_str_int_nonempty: "py_str_int n \<noteq> []"
  by (simp add: py_str_int_def dec_digits_nonempty)

section \<open>The fallback samples\<close>

lemma sample_okD:
  assumes "sample_ok s"
  obtains i n nm where "map_of s ''_id'' = Some (PStr i)" "py_int_str i = Inr n"
    "map_of s ''name'' = Some (PStr nm)"
  using assms by (auto simp: sample_ok_def split: option.splits pyval.splits sum.splits)

lemma sample_id_strings_Cons:
  "map_of s ''_id'' = Some (PStr i) \<Longrightarrow>
   sample_id_strings (s # ss) = insert i (sample_id_strings ss)"
  by (auto simp: sample_id_strings_def)

lemma sample_id_strings_Nil: "sample_id_strings [] = {}"
  by (simp add: sample_id_strings_def)

lemma sample_id_strings_append:
  "sample_id_strings (xs @ ys) = sample_id_strings xs \<union> sample_id_strings ys"
  by (auto simp: sample_id_strings_def)

lemma sample_matches_ok:
  "list_all sample_ok xs \<Longrightarrow> sample_matches xs query = Inr (filter (name_contains query) xs)"
proof (induction xs)
  case Nil
  then show ?case by simp
next
  case (Cons s ss)
  then have "sample_ok s" by simp
  then obtain nm where nm: "map_of s ''name'' = Some (PStr nm)" by (rule sample_okD)
  then have "name_contains query s \<longleftrightarrow> py_in_str (py_lower query) (py_lower nm)"
    by (simp add: name_contains_def py_in_str_iff)
  with Cons nm show ?case by (simp add: dict_get_def)
qed

lemma first_with_id_ok:
  "list_all sample_ok xs \<Longrightarrow>
   first_with_id xs sid = Inr (List.find (\<lambda>s. map_of s ''_id'' = Some (PStr sid)) xs)"
proof (induction xs)
  case Nil
  then show ?case by simp
next
  case (Cons s ss)
  then have "sample_ok s" by simp
  then obtain i where "map_of s ''_id'' = Some (PStr i)" by (rule sample_okD)
  with Cons show ?case by (simp add: dict_get_def)
qed

lemma find_id_None_iff:
  "List.find (\<lambda>s. map_of s ''_id'' = Some (PStr sid)) xs = None \<longleftrightarrow> sid \<notin> sample_id_strings xs"
  by (auto simp: find_None_iff sample_id_strings_def)

lemma sample_int_ids_ok:
  "list_all sample_ok xs \<Longrightarrow>
   \<exists>ns. sample_int_ids xs = Inr ns \<and> length ns = length xs \<and>
        set ns = {n. \<exists>i \<in> sample_id_strings xs. py_int_str i = Inr n}"
proof (induction xs)
  case Nil
  then show ?case by (simp add: sample_id_strings_Nil)
next
  case (Cons s ss)
  then have "sample_ok s" by simp
  then obtain i n where i: "map_of s ''_id'' = Some (PStr i)" and n: "py_int_str i = Inr n"
    by (rule sample_okD)
  from Cons obtain ns where ns: "sample_int_ids ss = Inr ns" "length ns = length ss"
    "set ns = {n. \<exists>i \<in> sample_id_strings ss. py_int_str i = Inr n}"
    by auto
  have "sample_int_ids (s # ss) = Inr (n # ns)"
    using i n ns by (simp add: dict_get_def)
  moreover have "set (n # ns) = {n. \<exists>i \<in> sample_id_strings (s # ss). py_int_str i = Inr n}"
    using n ns(3) by (auto simp: sample_id_strings_Cons [OF i])
  ultimately show ?case using ns(2) by simp
qed

lemma get_next_sample_id_ok:
  assumes "list_all sample_ok xs"
  shows "get_next_sample_id xs = Inr (py_str_int (next_sample_number xs))"
proof (cases "xs = []")
  case True
  have "dec_digits 1 = ''1''" by code_simp
  with True show ?thesis
    by (simp add: get_next_sample_id_def next_sample_number_def py_str_int_def)
next
  case False
  from assms obtain ns where ns: "sample_int_ids xs = Inr ns" "length ns = length xs"
    "set ns = {n. \<exists>i \<in> sample_id_strings xs. py_int_str i = Inr n}"
    using sample_int_ids_ok by blast
  with False obtain n rest where eq: "ns = n # rest" by (cases ns) auto
  have "fold max rest n = Max (set ns)" unfolding eq by (rule Max.set_eq_fold [symmetric])
  with False ns eq show ?thesis
    by (simp add: get_next_sample_id_def next_sample_number_def)
qed

lemma next_sample_id_fresh:
  assumes "list_all sample_ok xs"
  shows "py_str_int (next_sample_number xs) \<notin> sample_id_strings xs"
proof (cases "xs = []")
  case True
  then show ?thesis by (simp add: sample_id_strings_Nil)
next
  case False
  from assms obtain ns where ns: "sample_int_ids xs = Inr ns" "length ns = length xs"
    "set ns = {n. \<exists>i \<in> sample_id_strings xs. py_int_str i = Inr n}"
    using sample_int_ids_ok by blast
  let ?S = "{n. \<exists>i \<in> sample_id_strings xs. py_int_str i = Inr n}"
  have fin: "finite ?S" using ns(3) [symmetric] by simp
  show ?thesis
  proof
    assume "py_str_int (next_sample_number xs) \<in> sample_id_strings xs"
    then have "next_sample_number xs \<in> ?S"
      using py_int_str_roundtrip by blast
    then have "next_sample_number xs \<le> Max ?S" using fin by (rule Max_ge [rotated])
    with False show False by (simp add: next_sample_number_def)
  qed
qed

section \<open>The steps of the Create handler\<close>

lemma map_of_in_keys: "map_of d k = Some v \<Longrightarrow> k \<in> fst ` set d"
  by (metis domI dom_map_of_conv_image_fst)

lemma missing_fields_present:
  assumes "map_of body ''name'' = Some v" "map_of body ''age'' = Some a"
  shows "missing_fields (PDict body) = Inr False"
  using assms [THEN map_of_in_keys] by (simp add: missing_fields_def)

lemma validate_age_cases:
  assumes "map_of body ''age'' = Some a"
  shows "validate_age (PDict body) =
     (case py_int a of
        Inr n \<Rightarrow>
          if n < 0 \<or> n > 150
          then Inr (Inl (error_response ''Age must be between 0 and 150'' 400))
          else Inr (Inr (PDict (AList.update ''age'' (PInt n) body)))
      | Inl e \<Rightarrow>
          if e = ValueError \<or> e = TypeError
          then Inr (Inl (error_response ''Age must be a valid number'' 400))
          else Inl e)"
  using assms by (simp add: validate_age_def dict_get_def split: sum.splits)

lemma add_with_fields:
  assumes "map_of body ''name'' = Some v" "map_of body ''age'' = Some a"
  shows "add drv now st (Inr (PDict body)) =
     (case py_int a of
        Inr n \<Rightarrow>
          if n < 0 \<or> n > 150
          then (error_response ''Age must be between 0 and 150'' 400, st)
          else (case strip_of v of
                  Inr stripped \<Rightarrow>
                    if stripped = [] then (error_response ''Name cannot be empty'' 400, st)
                    else (case add_student drv now st (PDict (AList.update ''age'' (PInt n) body)) of
                            Inr (student, st') \<Rightarrow> ((PDict student, 201), st')
                          | Inl e \<Rightarrow> (error_response ''Failed to add student'' 500, st))
                | Inl e \<Rightarrow> (error_response ''Failed to add student'' 500, st))
      | Inl e \<Rightarrow>
          if e = ValueError \<or> e = TypeError
          then (error_response ''Age must be a valid number'' 400, st)
          else (error_response ''Failed to add student'' 500, st))"
proof -
  from assms(1) have ne: "body \<noteq> []" by auto
  have nm: "map_of (AList.update ''age'' x body) ''name'' = Some v" for x
    using assms(1) by (simp add: update_conv')
  show ?thesis
    using ne nm
    by (simp add: add_def missing_fields_present [OF assms] validate_age_cases [OF assms(2)]
        dict_get_def split: sum.splits prod.splits)
qed

lemma add_student_fallback:
  assumes "active_collection st = None" and "list_all sample_ok (SAMPLE_STUDENTS st)"
    and "map_of d ''name'' = Some name" and "map_of d ''age'' = Some age"
  shows "add_student drv now st (PDict d) =
     Inr ([(''name'', name), (''age'', age), (''created_at'', PStr now),
           (''_id'', PStr (py_str_int (next_sample_number (SAMPLE_STUDENTS st))))],
          st\<lparr>SAMPLE_STUDENTS := SAMPLE_STUDENTS st @
            [[(''name'', name), (''age'', age), (''created_at'', PStr now),
              (''_id'', PStr (py_str_int (next_sample_number (SAMPLE_STUDENTS st))))]]\<rparr>)"
  using assms by (simp add: add_student_def dict_get_def get_next_sample_id_ok Let_def)

lemma add_student_connected:
  assumes "active_collection st = Some c"
    and "map_of d ''name'' = Some name" and "map_of d ''age'' = Some age"
  shows "add_student drv now st (PDict d) =
     (case insert_one drv c [(''name'', name), (''age'', age), (''created_at'', PDatetime now)] of
        Inr (oid, c') \<Rightarrow>
          Inr ([(''name'', name), (''age'', age), (''created_at'', PDatetime now),
                (''_id'', PStr (str_oid drv oid))],
               st\<lparr>students_collection := Some c'\<rparr>)
      | Inl e \<Rightarrow> Inl e)"
  using assms by (simp add: add_student_def dict_get_def Let_def split: sum.splits)

lemma record_ids_fallback:
  "active_collection st = None \<Longrightarrow> record_ids drv st = sample_id_strings (SAMPLE_STUDENTS st)"
  by (simp add: record_ids_def get_students_def sample_id_strings_def)

lemma sample_seed_ok: "list_all sample_ok sample_seed"
  by code_simp

section \<open>The steps of the reads\<close>

lemma search_fallback_filter:
  assumes "active_collection st = None" and "list_all sample_ok (SAMPLE_STUDENTS st)"
  shows "search_students_by_name drv st query =
    Inr (filter (name_contains query) (SAMPLE_STUDENTS st))"
  using assms by (simp add: search_students_by_name_def sample_matches_ok)

lemma alice_johnson_found:
  "search_students_by_name down_driver (fallback_state sample_seed) ''alice'' =
     Inr [[(''_id'', PStr ''3''), (''name'', PStr ''Alice Johnson''), (''age'', PInt 19)]]"
  "search_students_by_name down_driver (fallback_state sample_seed) ''Johnson'' =
     Inr [[(''_id'', PStr ''3''), (''name'', PStr ''Alice Johnson''), (''age'', PInt 19)]]"
  "search_students_by_name down_driver (fallback_state sample_seed) ''ce Jo'' =
     Inr [[(''_id'', PStr ''3''), (''name'', PStr ''Alice Johnson''), (''age'', PInt 19)]]"
  by code_simp+

lemma fallback_state_simps:
  "active_collection (fallback_state samples) = None"
  "SAMPLE_STUDENTS (fallback_state samples) = samples"
  by (simp_all add: active_collection_def fallback_state_def)

lemma connected_state_simps:
  "active_collection (connected_state c) = Some c"
  "SAMPLE_STUDENTS (connected_state c) = sample_seed"
  by (simp_all add: active_collection_def connected_state_def)

section \<open>The steps of the Delete handler\<close>

lemma remove1_found:
  "distinct (map f xs) \<Longrightarrow> List.find (\<lambda>x. f x = k) xs = Some s \<Longrightarrow>
   remove1 s xs = filter (\<lambda>x. f x \<noteq> k) xs"
proof (induction xs)
  case Nil
  then show ?case by simp
next
  case (Cons x xs)
  show ?case
  proof (cases "f x = k")
    case True
    with Cons.prems have "s = x" and "k \<notin> f ` set xs" by auto
    then have "filter (\<lambda>x. f x \<noteq> k) xs = xs" by (auto simp: filter_id_conv)
    with True \<open>s = x\<close> show ?thesis by simp
  next
    case False
    with Cons.prems have found: "List.find (\<lambda>x. f x = k) xs = Some s" by simp
    then have "f s = k" by (auto simp: find_Some_iff)
    with False have "x \<noteq> s" by auto
    with Cons False found show ?thesis by simp
  qed
qed

lemma samples_ok_filter: "samples_ok xs \<Longrightarrow> samples_ok (filter P xs)"
  by (auto simp: samples_ok_def list_all_iff distinct_map_filter)

lemma sample_id_strings_filter:
  "sample_id_strings (filter (\<lambda>s. map_of s ''_id'' \<noteq> Some (PStr sid)) xs) =
   sample_id_strings xs - {sid}"
  by (auto simp: sample_id_strings_def)

lemma delete_student_fallback_absent:
  assumes "active_collection st = None" and "list_all sample_ok (SAMPLE_STUDENTS st)"
    and "sid \<notin> sample_id_strings (SAMPLE_STUDENTS st)"
  shows "delete_student drv st sid = (error_dict ''Student not found'', st)"
  using assms find_id_None_iff [of sid "SAMPLE_STUDENTS st"]
  by (simp add: delete_student_def first_with_id_ok)

lemma delete_student_fallback_present:
  assumes "active_collection st = None" and "samples_ok (SAMPLE_STUDENTS st)"
    and "sid \<in> sample_id_strings (SAMPLE_STUDENTS st)"
  shows "delete_student drv st sid =
    (deleted_message,
     st\<lparr>SAMPLE_STUDENTS :=
          filter (\<lambda>s. map_of s ''_id'' \<noteq> Some (PStr sid)) (SAMPLE_STUDENTS st)\<rparr>)"
proof -
  from assms(2) have ok: "list_all sample_ok (SAMPLE_STUDENTS st)"
    and dist: "distinct (map (\<lambda>s. map_of s ''_id'') (SAMPLE_STUDENTS st))"
    by (simp_all add: samples_ok_def)
  from assms(3) obtain s where
    found: "List.find (\<lambda>s. map_of s ''_id'' = Some (PStr sid)) (SAMPLE_STUDENTS st) = Some s"
    using find_id_None_iff [of sid "SAMPLE_STUDENTS st"] by auto
  then have "map_of s ''_id'' = Some (PStr sid)" by (auto simp: find_Some_iff)
  then have ne: "s \<noteq> []" by auto
  from remove1_found [OF dist found]
  have "remove1 s (SAMPLE_STUDENTS st) =
      filter (\<lambda>s. map_of s ''_id'' \<noteq> Some (PStr sid)) (SAMPLE_STUDENTS st)" .
  with assms(1) found ne show ?thesis
    by (simp add: delete_student_def first_with_id_ok [OF ok])
qed

lemma delete_of_result:
  "delete drv st sid =
    (case delete_student drv st sid of
       (result, st') \<Rightarrow>
         ((PDict result, if ''error'' \<in> fst ` set result then 404 else 200), st'))"
  by (simp add: delete_def split: prod.splits)

lemma active_collection_Some:
  "active_collection st = Some c \<Longrightarrow> st\<lparr>students_collection := Some c\<rparr> = st"
  by (auto simp: active_collection_def split: if_splits)

lemma sample_seed_samples_ok: "samples_ok sample_seed"
  by code_simp

section \<open>A backend that raises during a write\<close>

lemma add_when_backend_raises:
  assumes "map_of body ''name'' = Some (PStr name)" and "\<not> whitespace_only name"
    and "map_of body ''age'' = Some (PInt age)" and "0 \<le> age" and "age \<le> 150"
    and "active_collection st = Some c"
    and "insert_one drv c
      [(''name'', PStr name), (''age'', PInt age), (''created_at'', PDatetime now)] = Inl e"
  shows "add drv now st (Inr (PDict body)) = (error_response ''Failed to add student'' 500, st)"
proof -
  let ?data = "AList.update ''age'' (PInt age) body"
  have fields: "map_of ?data ''name'' = Some (PStr name)" "map_of ?data ''age'' = Some (PInt age)"
    using assms(1) by (simp_all add: update_conv')
  from assms show ?thesis
    by (simp add: add_with_fields [OF assms(1,3)] py_strip_empty_iff
        add_student_connected [OF assms(6) fields])
qed

lemma delete_when_backend_raises:
  assumes "active_collection st = Some c" and "ObjectId drv sid = Inr oid"
    and "delete_one drv c oid = Inl e"
  shows "delete drv st sid = (error_response ''Failed to delete student'' 404, st)"
  using assms
  by (simp add: delete_of_result delete_student_def error_dict_def error_response_def)

section \<open>What a Create does to the state\<close>

lemma and_then_eq_Inr: "and_then x f = Inr y \<longleftrightarrow> (\<exists>a. x = Inr a \<and> f a = Inr y)"
  by (cases x) auto

lemma and_then_eq_Inl:
  "and_then x f = Inl e \<longleftrightarrow> x = Inl e \<or> (\<exists>a. x = Inr a \<and> f a = Inl e)"
  by (cases x) auto

lemma validate_age_answer: "validate_age data = Inr (Inl resp) \<Longrightarrow> snd resp = 400"
  by (auto simp: validate_age_def error_response_def and_then_eq_Inr
      split: sum.splits if_splits)

lemma strip_of_Inr: "strip_of v = Inr s \<Longrightarrow> \<exists>nm. v = PStr nm"
  by (cases v) auto

lemma add_cases:
  assumes "add drv now st req = (resp, st')"
  shows "(st' = st \<and> (snd resp = 400 \<or> snd resp = 500)) \<or>
    (\<exists>data nm student. add_student drv now st data = Inr (student, st') \<and>
       py_getitem data ''name'' = Inr (PStr nm) \<and> resp = (PDict student, 201))"
proof (cases req)
  case (Inl e)
  with assms show ?thesis by (auto simp: add_def error_response_def)
next
  case (Inr data)
  show ?thesis
  proof (cases "py_truthy data")
    case False
    with Inr assms show ?thesis by (auto simp: add_def error_response_def)
  next
    case True
    show ?thesis
    proof (cases "missing_fields data")
      case (Inl e)
      with Inr True assms show ?thesis by (auto simp: add_def error_response_def)
    next
      case missing: (Inr m)
      show ?thesis
      proof (cases m)
        case True
        with Inr \<open>py_truthy data\<close> missing assms show ?thesis
          by (auto simp: add_def error_response_def)
      next
        case False
        show ?thesis
        proof (cases "validate_age data")
          case (Inl e)
          with Inr \<open>py_truthy data\<close> missing False assms show ?thesis
            by (auto simp: add_def error_response_def)
        next
          case checked: (Inr r)
          show ?thesis
          proof (cases r)
            case (Inl answer)
            with checked have "snd answer = 400" by (simp add: validate_age_answer)
            with Inl checked Inr \<open>py_truthy data\<close> missing False assms show ?thesis
              by (auto simp: add_def)
          next
            case data': (Inr data')
            have eq: "add drv now st req =
              (case and_then (py_getitem data' ''name'') (\<lambda>name.
                     and_then (strip_of name) (\<lambda>stripped.
                       if stripped = [] then Inr (error_response ''Name cannot be empty'' 400, st)
                       else and_then (add_student drv now st data') (\<lambda>(student, st').
                         Inr ((PDict student, 201), st')))) of
                 Inr r \<Rightarrow> r
               | Inl e \<Rightarrow> (error_response ''Failed to add student'' 500, st))"
              using Inr \<open>py_truthy data\<close> missing False checked data'
              by (simp add: add_def)
            show ?thesis
            proof (cases "py_getitem data' ''name''")
              case (Inl e)
              with eq assms show ?thesis by (auto simp: error_response_def)
            next
              case name: (Inr name)
              show ?thesis
              proof (cases "strip_of name")
                case (Inl e)
                with eq name assms show ?thesis by (auto simp: error_response_def)
              next
                case stripped: (Inr stripped)
                then obtain nm where nm: "name = PStr nm" using strip_of_Inr by blast
                show ?thesis
                proof (cases "stripped = []")
                  case True
                  with eq name stripped assms show ?thesis
                    by (auto simp: error_response_def)
                next
                  case False
                  show ?thesis
                  proof (cases "add_student drv now st data'")
                    case (Inl e)
                    with eq name stripped False assms show ?thesis
                      by (auto simp: error_response_def)
                  next
                    case added: (Inr p)
                    obtain student st1 where p: "p = (student, st1)" by (cases p)
                    from eq name stripped added p False assms
                    have "resp = (PDict student, 201)" "st' = st1" by auto
                    with added p name nm show ?thesis by blast
                  qed
                qed
              qed
            qed
          qed
        qed
      qed
    qed
  qed
qed

lemma add_student_fallback_result:
  assumes "active_collection st = None" and "add_student drv now st data = Inr (student, st')"
    and "py_getitem data ''name'' = Inr name"
  shows "\<exists>age new_id. get_next_sample_id (SAMPLE_STUDENTS st) = Inr new_id \<and>
      student = [(''name'', name), (''age'', age), (''created_at'', PStr now),
                 (''_id'', PStr new_id)] \<and>
      st' = st\<lparr>SAMPLE_STUDENTS := SAMPLE_STUDENTS st @ [student]\<rparr>"
proof (cases "py_getitem data ''age''")
  case (Inl e)
  with assms show ?thesis by (simp add: add_student_def)
next
  case age: (Inr age)
  show ?thesis
  proof (cases "get_next_sample_id (SAMPLE_STUDENTS st)")
    case (Inl e)
    with assms age show ?thesis by (simp add: add_student_def)
  next
    case (Inr new_id)
    with assms age show ?thesis by (auto simp: add_student_def Let_def)
  qed
qed

lemma add_student_connected_result:
  assumes "active_collection st = Some c" and "add_student drv now st data = Inr (student, st')"
  shows "\<exists>c'. st' = st\<lparr>students_collection := Some c'\<rparr>"
  using assms
  by (auto simp: add_student_def Let_def and_then_eq_Inr)

section \<open>The projection of the connected listing\<close>

lemma project_docs_ok:
  assumes "\<forall>d \<in> set docs. ''name'' \<in> fst ` set (snd d) \<and> ''age'' \<in> fst ` set (snd d)"
  shows "\<exists>records. project_docs drv docs = Inr records \<and>
      list_all2 (\<lambda>d r. keys r = [''_id'', ''name'', ''age''] \<and>
          map_of r ''_id'' = Some (PStr (str_oid drv (fst d))) \<and>
          map_of r ''name'' = map_of (snd d) ''name'' \<and>
          map_of r ''age'' = map_of (snd d) ''age'') docs records"
  using assms
proof (induction docs)
  case Nil
  then show ?case by simp
next
  case (Cons d docs)
  then obtain records where rs: "project_docs drv docs = Inr records"
    "list_all2 (\<lambda>d r. keys r = [''_id'', ''name'', ''age''] \<and>
          map_of r ''_id'' = Some (PStr (str_oid drv (fst d))) \<and>
          map_of r ''name'' = map_of (snd d) ''name'' \<and>
          map_of r ''age'' = map_of (snd d) ''age'') docs records"
    by auto
  from Cons.prems obtain n a where
    "map_of (snd d) ''name'' = Some n" "map_of (snd d) ''age'' = Some a"
    by (metis list.set_intros(1) map_of_eq_None_iff not_Some_eq)
  with rs show ?case
    by (simp add: project_doc_def dict_get_def keys_def)
qed

text \<open>
  The connected listing: one record for each document the database returns, in their
  order, with exactly the fields \<^verbatim>\<open>_id\<close> (as a string), \<^verbatim>\<open>name\<close> and \<^verbatim>\<open>age\<close>.
\<close>

lemma get_all_connected_projects:
  assumes "active_collection st = Some c" and "find_all drv c = Inr docs"
    and "\<forall>d \<in> set docs. ''name'' \<in> fst ` set (snd d) \<and> ''age'' \<in> fst ` set (snd d)"
  shows "\<exists>records. get_all drv st = (PList (map PDict records), 200) \<and>
      list_all2 (\<lambda>d r. keys r = [''_id'', ''name'', ''age''] \<and>
          map_of r ''_id'' = Some (PStr (str_oid drv (fst d))) \<and>
          map_of r ''name'' = map_of (snd d) ''name'' \<and>
          map_of r ''age'' = map_of (snd d) ''age'') docs records"
proof -
  from assms(3) obtain records where rs: "project_docs drv docs = Inr records"
    "list_all2 (\<lambda>d r. keys r = [''_id'', ''name'', ''age''] \<and>
          map_of r ''_id'' = Some (PStr (str_oid drv (fst d))) \<and>
          map_of r ''name'' = map_of (snd d) ''name'' \<and>
          map_of r ''age'' = map_of (snd d) ''age'') docs records"
    using project_docs_ok [of docs drv] by auto
  from assms(1,2) rs(1) have "get_all drv st = (PList (map PDict records), 200)"
    by (simp add: get_all_def get_students_def)
  with rs(2) show ?thesis by blast
qed

text \<open>A student created in connected mode is listed without its \<^verbatim>\<open>created_at\<close>.\<close>

lemma connected_list_has_three_fields:
  "get_all list_driver
     (snd (add list_driver ''2024-05-01T10:00:00'' (connected_state [])
        (Inr (PDict [(''name'', PStr ''Bob''), (''age'', PInt 30)])))) =
   (PList [PDict [(''_id'', PStr ''1''), (''name'', PStr ''Bob''), (''age'', PInt 30)]], 200)"
  by code_simp

section \<open>What a run of the service keeps\<close>

lemma samples_ok_snoc:
  assumes "samples_ok xs" and "map_of s ''_id'' = Some (PStr i)" and "i \<notin> sample_id_strings xs"
    and "map_of s ''name'' = Some (PStr nm)" and "py_int_str i = Inr n"
  shows "samples_ok (xs @ [s])"
proof -
  from assms(2,4,5) have "sample_ok s" by (simp add: sample_ok_def)
  moreover from assms(2,3) have "map_of s ''_id'' \<notin> (\<lambda>s. map_of s ''_id'') ` set xs"
    by (auto simp: sample_id_strings_def)
  ultimately show ?thesis using assms(1) by (simp add: samples_ok_def)
qed

lemma add_fallback_step:
  assumes "active_collection st = None" and "samples_ok (SAMPLE_STUDENTS st)"
    and "add drv now st req = (resp, st1)"
  shows "active_collection st1 = None \<and> samples_ok (SAMPLE_STUDENTS st1) \<and>
    sample_id_strings (SAMPLE_STUDENTS st1) \<subseteq>
      sample_id_strings (SAMPLE_STUDENTS st) \<union> set (created_id (POST req now) resp)"
proof -
  from assms(2) have ok: "list_all sample_ok (SAMPLE_STUDENTS st)" by (simp add: samples_ok_def)
  from add_cases [OF assms(3)] show ?thesis
  proof
    assume "st1 = st \<and> (snd resp = 400 \<or> snd resp = 500)"
    with assms show ?thesis by auto
  next
    assume "\<exists>data nm student. add_student drv now st data = Inr (student, st1) \<and>
       py_getitem data ''name'' = Inr (PStr nm) \<and> resp = (PDict student, 201)"
    then obtain data nm student where added: "add_student drv now st data = Inr (student, st1)"
      and name: "py_getitem data ''name'' = Inr (PStr nm)" and resp: "resp = (PDict student, 201)"
      by blast
    from add_student_fallback_result [OF assms(1) added name] obtain age new_id where
      nid: "get_next_sample_id (SAMPLE_STUDENTS st) = Inr new_id"
      and student: "student = [(''name'', PStr nm), (''age'', age), (''created_at'', PStr now),
                 (''_id'', PStr new_id)]"
      and st1: "st1 = st\<lparr>SAMPLE_STUDENTS := SAMPLE_STUDENTS st @ [student]\<rparr>"
      by blast
    from nid have new_id: "new_id = py_str_int (next_sample_number (SAMPLE_STUDENTS st))"
      by (simp add: get_next_sample_id_ok [OF ok])
    then have fresh: "new_id \<notin> sample_id_strings (SAMPLE_STUDENTS st)"
      using next_sample_id_fresh [OF ok] by simp
    have id: "map_of student ''_id'' = Some (PStr new_id)"
      and nm: "map_of student ''name'' = Some (PStr nm)"
      by (simp_all add: student)
    have "py_int_str new_id = Inr (next_sample_number (SAMPLE_STUDENTS st))"
      by (simp add: new_id py_int_str_roundtrip)
    with assms(2) id fresh nm have "samples_ok (SAMPLE_STUDENTS st @ [student])"
      by (rule samples_ok_snoc)
    moreover from assms(1) st1 have "active_collection st1 = None"
      by (auto simp: active_collection_def split: if_splits)
    moreover have "created_id (POST req now) resp = [new_id]"
      by (simp add: created_id_def resp id)
    moreover have "sample_id_strings (SAMPLE_STUDENTS st @ [student]) =
        sample_id_strings (SAMPLE_STUDENTS st) \<union> {new_id}"
      using id by (auto simp: sample_id_strings_def)
    ultimately show ?thesis by (simp add: st1)
  qed
qed

lemma delete_fallback_step:
  assumes "active_collection st = None" and "samples_ok (SAMPLE_STUDENTS st)"
    and "delete drv st sid = (resp, st1)"
  shows "active_collection st1 = None \<and> samples_ok (SAMPLE_STUDENTS st1) \<and>
    sample_id_strings (SAMPLE_STUDENTS st1) \<subseteq> sample_id_strings (SAMPLE_STUDENTS st)"
proof (cases "sid \<in> sample_id_strings (SAMPLE_STUDENTS st)")
  case True
  from assms(3) have
    "st1 = st\<lparr>SAMPLE_STUDENTS :=
          filter (\<lambda>s. map_of s ''_id'' \<noteq> Some (PStr sid)) (SAMPLE_STUDENTS st)\<rparr>"
    by (simp add: delete_of_result delete_student_fallback_present [OF assms(1,2) True])
  with assms(1,2) show ?thesis
    by (auto simp: samples_ok_filter sample_id_strings_filter active_collection_def
        split: if_splits)
next
  case False
  from assms(2) have ok: "list_all sample_ok (SAMPLE_STUDENTS st)" by (simp add: samples_ok_def)
  from assms(3) have "st1 = st"
    by (simp add: delete_of_result delete_student_fallback_absent [OF assms(1) ok False])
  with assms show ?thesis by simp
qed

lemma serve_fallback_step:
  assumes "active_collection st = None" and "samples_ok (SAMPLE_STUDENTS st)"
    and "serve drv st rq = (resp, st1)"
  shows "active_collection st1 = None \<and> samples_ok (SAMPLE_STUDENTS st1) \<and>
    sample_id_strings (SAMPLE_STUDENTS st1) \<subseteq>
      sample_id_strings (SAMPLE_STUDENTS st) \<union> set (created_id rq resp)"
proof (cases rq)
  case (POST req now)
  with assms show ?thesis using add_fallback_step by simp
next
  case (DELETE sid)
  with assms delete_fallback_step [of st drv sid resp st1] show ?thesis by auto
qed (use assms in auto)

lemma run_fallback:
  "active_collection st = None \<Longrightarrow> samples_ok (SAMPLE_STUDENTS st) \<Longrightarrow>
   run drv st rqs = (issued, st') \<Longrightarrow>
   active_collection st' = None \<and> samples_ok (SAMPLE_STUDENTS st') \<and>
   sample_id_strings (SAMPLE_STUDENTS st') \<subseteq> sample_id_strings (SAMPLE_STUDENTS st) \<union> set issued"
proof (induction rqs arbitrary: st issued st')
  case Nil
  then show ?case by simp
next
  case (Cons rq rqs)
  obtain resp st1 where step: "serve drv st rq = (resp, st1)" by (cases "serve drv st rq")
  obtain rest st2 where tail: "run drv st1 rqs = (rest, st2)" by (cases "run drv st1 rqs")
  from Cons.prems(3) step tail have res: "issued = created_id rq resp @ rest" "st' = st2"
    by simp_all
  from serve_fallback_step [OF Cons.prems(1,2) step]
  have 1: "active_collection st1 = None" "samples_ok (SAMPLE_STUDENTS st1)"
    "sample_id_strings (SAMPLE_STUDENTS st1) \<subseteq>
      sample_id_strings (SAMPLE_STUDENTS st) \<union> set (created_id rq resp)"
    by simp_all
  from Cons.IH [OF 1(1,2) tail] 1(3) res show ?case by auto
qed

lemma delete_student_connected_state:
  assumes "active_collection st = Some c"
  shows "\<exists>c'. snd (delete_student drv st sid) = st\<lparr>students_collection := Some c'\<rparr>"
proof (cases "and_then (ObjectId drv sid) (\<lambda>oid. delete_one drv c oid)")
  case (Inl e)
  then have "snd (delete_student drv st sid) = st"
    using assms by (auto simp: delete_student_def and_then_eq_Inl)
  with active_collection_Some [OF assms] show ?thesis by metis
next
  case (Inr r)
  obtain n c' where "r = (n, c')" by (cases r)
  with Inr show ?thesis
    using assms by (auto simp: delete_student_def and_then_eq_Inr)
qed

lemma connected_update:
  "active_collection st = Some c \<Longrightarrow>
   active_collection (st\<lparr>students_collection := Some c'\<rparr>) = Some c'"
  by (auto simp: active_collection_def split: if_splits)

lemma serve_connected_step:
  assumes "active_collection st = Some c" and "serve drv st rq = (resp, st1)"
  shows "(\<exists>c1. active_collection st1 = Some c1) \<and> SAMPLE_STUDENTS st1 = SAMPLE_STUDENTS st"
proof (cases rq)
  case (POST req now)
  with assms(2) have "add drv now st req = (resp, st1)" by simp
  from add_cases [OF this] show ?thesis
  proof
    assume "st1 = st \<and> (snd resp = 400 \<or> snd resp = 500)"
    with assms(1) show ?thesis by simp
  next
    assume "\<exists>data nm student. add_student drv now st data = Inr (student, st1) \<and>
       py_getitem data ''name'' = Inr (PStr nm) \<and> resp = (PDict student, 201)"
    then obtain c' where "st1 = st\<lparr>students_collection := Some c'\<rparr>"
      using add_student_connected_result [OF assms(1)] by blast
    with connected_update [OF assms(1)] show ?thesis by simp
  qed
next
  case (DELETE sid)
  with assms(2) have "st1 = snd (delete_student drv st sid)"
    by (auto simp: delete_of_result split: prod.splits)
  with delete_student_connected_state [OF assms(1), of drv sid] obtain c' where
    "st1 = st\<lparr>students_collection := Some c'\<rparr>" by auto
  with connected_update [OF assms(1)] show ?thesis by simp
qed (use assms in auto)

lemma run_connected:
  "active_collection st = Some c \<Longrightarrow> run drv st rqs = (issued, st') \<Longrightarrow>
   (\<exists>c'. active_collection st' = Some c') \<and> SAMPLE_STUDENTS st' = SAMPLE_STUDENTS st"
proof (induction rqs arbitrary: st c issued st')
  case Nil
  then show ?case by simp
next
  case (Cons rq rqs)
  obtain resp st1 where step: "serve drv st rq = (resp, st1)" by (cases "serve drv st rq")
  obtain rest st2 where tail: "run drv st1 rqs = (rest, st2)" by (cases "run drv st1 rqs")
  from Cons.prems(2) step tail have res: "st' = st2" by simp
  from serve_connected_step [OF Cons.prems(1) step] obtain c1 where
    1: "active_collection st1 = Some c1" "SAMPLE_STUDENTS st1 = SAMPLE_STUDENTS st"
    by auto
  from Cons.IH [OF 1(1) tail] 1(2) res show ?case by simp
qed

lemma sample_seed_ids: "sample_id_strings sample_seed = {''1'', ''2'', ''3'', ''4''}"
  by (auto simp: sample_id_strings_def sample_seed_def)

lemma initial_state_samples: "SAMPLE_STUDENTS (initial_state uri connect) = sample_seed"
  by (simp add: initial_state_def split: prod.splits)

text \<open>
  Every state the service reaches from its start has well-formed samples with distinct
  identifiers: this is the hypothesis on the samples in the theorems below.
\<close>

lemma samples_ok_reachable:
  assumes "run drv (initial_state uri connect) rqs = (issued, st)"
  shows "samples_ok (SAMPLE_STUDENTS st)"
proof (cases "active_collection (initial_state uri connect)")
  case None
  from run_fallback [OF None _ assms] sample_seed_samples_ok show ?thesis
    by (simp add: initial_state_samples)
next
  case (Some c)
  from run_connected [OF Some assms] sample_seed_samples_ok show ?thesis
    by (simp add: initial_state_samples)
qed

section \<open>Creating a student\<close>

text \<open>
  Claim C1. A body with a string name that is not empty after trimming and an integer age
  between 0 and 150 is answered with status 201 and the created record: its name and age
  are those of the body, unchanged, and its \<^verbatim>\<open>_id\<close> is a non-empty string that no
  record of the active backend has. In fallback mode the \<^verbatim>\<open>_id\<close> is the decimal
  string of the largest number among the samples' identifiers plus one (of 1 for no
  samples), and the record is appended to the samples. In connected mode the \<^verbatim>\<open>_id\<close>
  is the string of the identifier the insertion returned; that the database hands out a
  new identifier that prints as a non-empty string is what the hypothesis on the driver
  says, together with the success of the insertion. The hypothesis in fallback mode is
  that the samples are well formed, which \<open>samples_ok_reachable\<close> shows of every state
  the service reaches.
\<close>

theorem create_valid:
  assumes name: "map_of body ''name'' = Some (PStr name)" "\<not> whitespace_only name"
    and age: "map_of body ''age'' = Some (PInt age)" "0 \<le> age" "age \<le> 150"
    and backend:
      "case active_collection st of
         None \<Rightarrow> list_all sample_ok (SAMPLE_STUDENTS st)
       | Some c \<Rightarrow>
           \<exists>oid c'. insert_one drv c
               [(''name'', PStr name), (''age'', PInt age), (''created_at'', PDatetime now)] =
               Inr (oid, c') \<and>
             str_oid drv oid \<noteq> [] \<and> str_oid drv oid \<notin> record_ids drv st"
  shows "\<exists>student st' new_id.
      add drv now st (Inr (PDict body)) = ((PDict student, 201), st') \<and>
      map_of student ''name'' = Some (PStr name) \<and>
      map_of student ''age'' = Some (PInt age) \<and>
      map_of student ''_id'' = Some (PStr new_id) \<and>
      new_id \<noteq> [] \<and> new_id \<notin> record_ids drv st \<and>
      (active_collection st = None \<longrightarrow>
         new_id = py_str_int (next_sample_number (SAMPLE_STUDENTS st)) \<and>
         SAMPLE_STUDENTS st' = SAMPLE_STUDENTS st @ [student])"
proof -
  let ?data = "AList.update ''age'' (PInt age) body"
  have stripped: "py_strip name \<noteq> []"
    using name(2) by (simp add: py_strip_empty_iff)
  have fields: "map_of ?data ''name'' = Some (PStr name)" "map_of ?data ''age'' = Some (PInt age)"
    using name(1) by (simp_all add: update_conv')
  have step: "add drv now st (Inr (PDict body)) =
      (case add_student drv now st (PDict ?data) of
         Inr (student, st') \<Rightarrow> ((PDict student, 201), st')
       | Inl e \<Rightarrow> (error_response ''Failed to add student'' 500, st))"
    using age stripped by (simp add: add_with_fields [OF name(1) age(1)])
  show ?thesis
  proof (cases "active_collection st")
    case None
    with backend have ok: "list_all sample_ok (SAMPLE_STUDENTS st)" by simp
    have fresh: "py_str_int (next_sample_number (SAMPLE_STUDENTS st)) \<notin> record_ids drv st"
      using next_sample_id_fresh [OF ok] by (simp add: record_ids_fallback [OF None])
    show ?thesis
      using None fresh
      by (simp add: step add_student_fallback [OF None ok fields] py_str_int_nonempty)
  next
    case (Some c)
    with backend obtain oid c' where ins: "insert_one drv c
        [(''name'', PStr name), (''age'', PInt age), (''created_at'', PDatetime now)] = Inr (oid, c')"
      and oid: "str_oid drv oid \<noteq> []" "str_oid drv oid \<notin> record_ids drv st"
      by auto
    show ?thesis
      using Some oid by (simp add: step add_student_connected [OF Some fields] ins)
  qed
qed

theorem create_valid_witness:
  "(\<exists>student st' new_id.
      add down_driver ''2024-05-01T10:00:00'' (fallback_state sample_seed)
        (Inr (PDict [(''name'', PStr ''John Doe''), (''age'', PInt 25)])) =
        ((PDict student, 201), st') \<and>
      map_of student ''name'' = Some (PStr ''John Doe'') \<and>
      map_of student ''age'' = Some (PInt 25) \<and>
      map_of student ''_id'' = Some (PStr new_id) \<and>
      new_id \<noteq> [] \<and> new_id \<notin> record_ids down_driver (fallback_state sample_seed) \<and>
      new_id = py_str_int (next_sample_number sample_seed) \<and>
      SAMPLE_STUDENTS st' = sample_seed @ [student]) \<and>
   (\<exists>student st' new_id.
      add list_driver ''2024-05-01T10:00:00'' (connected_state [])
        (Inr (PDict [(''name'', PStr ''John Doe''), (''age'', PInt 25)])) =
        ((PDict student, 201), st') \<and>
      map_of student ''name'' = Some (PStr ''John Doe'') \<and>
      map_of student ''age'' = Some (PInt 25) \<and>
      map_of student ''_id'' = Some (PStr new_id) \<and>
      new_id \<noteq> [] \<and> new_id \<notin> record_ids list_driver (connected_state []))"
proof -
  have 1: "\<not> whitespace_only ''John Doe''"
    by (simp add: whitespace_only_def py_isspace_def)
  have 2: "active_collection (fallback_state sample_seed) = None"
    by (simp add: active_collection_def fallback_state_def)
  have 3: "SAMPLE_STUDENTS (fallback_state sample_seed) = sample_seed"
    by (simp add: fallback_state_def)
  have 4: "active_collection (connected_state []) = Some []"
    by (simp add: active_collection_def connected_state_def)
  have 5: "record_ids list_driver (connected_state []) = {}"
    by (simp add: record_ids_def get_students_def 4 list_driver_def)
  have 6: "insert_one list_driver [] doc = Inr (1, [(1, doc)])" for doc
    by (simp add: list_driver_def)
  have 7: "str_oid list_driver 1 \<noteq> []"
    by (simp add: list_driver_def py_str_int_nonempty)
  have connected: "\<exists>student st' new_id.
      add list_driver ''2024-05-01T10:00:00'' (connected_state [])
        (Inr (PDict [(''name'', PStr ''John Doe''), (''age'', PInt 25)])) =
        ((PDict student, 201), st') \<and>
      map_of student ''name'' = Some (PStr ''John Doe'') \<and>
      map_of student ''age'' = Some (PInt 25) \<and>
      map_of student ''_id'' = Some (PStr new_id) \<and>
      new_id \<noteq> [] \<and> new_id \<notin> record_ids list_driver (connected_state [])"
  proof -
    have "case active_collection (connected_state []) of
         None \<Rightarrow> list_all sample_ok (SAMPLE_STUDENTS (connected_state []))
       | Some c \<Rightarrow>
           \<exists>oid c'. insert_one list_driver c
               [(''name'', PStr ''John Doe''), (''age'', PInt 25),
                (''created_at'', PDatetime ''2024-05-01T10:00:00'')] = Inr (oid, c') \<and>
             str_oid list_driver oid \<noteq> [] \<and>
             str_oid list_driver oid \<notin> record_ids list_driver (connected_state [])"
      using 6 7 by (simp add: 4 5)
    from create_valid [where body = "[(''name'', PStr ''John Doe''), (''age'', PInt 25)]"
        and age = 25, OF _ 1 _ _ _ this]
    show ?thesis by (simp add: 4)
  qed
  have fallback: "\<exists>student st' new_id.
      add down_driver ''2024-05-01T10:00:00'' (fallback_state sample_seed)
        (Inr (PDict [(''name'', PStr ''John Doe''), (''age'', PInt 25)])) =
        ((PDict student, 201), st') \<and>
      map_of student ''name'' = Some (PStr ''John Doe'') \<and>
      map_of student ''age'' = Some (PInt 25) \<and>
      map_of student ''_id'' = Some (PStr new_id) \<and>
      new_id \<noteq> [] \<and> new_id \<notin> record_ids down_driver (fallback_state sample_seed) \<and>
      new_id = py_str_int (next_sample_number sample_seed) \<and>
      SAMPLE_STUDENTS st' = sample_seed @ [student]"
    using create_valid [of "[(''name'', PStr ''John Doe''), (''age'', PInt 25)]" "''John Doe''" 25
        "fallback_state sample_seed" down_driver "''2024-05-01T10:00:00''"] 1 2 3 sample_seed_ok
    by simp
  from fallback connected show ?thesis by (rule conjI)
qed

section \<open>Listing the students\<close>

text \<open>
  Claim C2: every listed record has exactly the fields \<^verbatim>\<open>_id\<close>, \<^verbatim>\<open>name\<close> and
  \<^verbatim>\<open>age\<close>, also a student created in fallback mode. The connected branch of
  \<^verbatim>\<open>get_students\<close> builds such records (\<open>get_all_connected_projects\<close>, and
  \<open>connected_list_has_three_fields\<close> for a student just created). The fallback branch
  returns the samples as they are stored, and \<^verbatim>\<open>add_student\<close> stores the record it
  answers with, \<^verbatim>\<open>created_at\<close> included: after one Create in fallback mode the listing
  shows the new student with its \<^verbatim>\<open>created_at\<close>, which the claim excludes.
\<close>

theorem fallback_list_shows_created_at:
  "get_all down_driver
     (snd (add down_driver ''2024-05-01T10:00:00'' (fallback_state sample_seed)
        (Inr (PDict [(''name'', PStr ''Bob''), (''age'', PInt 30)])))) =
   (PList
     [PDict [(''_id'', PStr ''1''), (''name'', PStr ''John Doe''), (''age'', PInt 20)],
      PDict [(''_id'', PStr ''2''), (''name'', PStr ''Jane Smith''), (''age'', PInt 22)],
      PDict [(''_id'', PStr ''3''), (''name'', PStr ''Alice Johnson''), (''age'', PInt 19)],
      PDict [(''_id'', PStr ''4''), (''name'', PStr ''Bob Wilson''), (''age'', PInt 21)],
      PDict [(''name'', PStr ''Bob''), (''age'', PInt 30),
             (''created_at'', PStr ''2024-05-01T10:00:00''), (''_id'', PStr ''5'')]], 200)"
  by code_simp

section \<open>Looking up an identifier\<close>

text \<open>
  Claim C3, as the specification states it: an identifier that no Create of the process
  returned is answered with 404. The process starts in fallback mode with its four
  samples; before any Create, the identifier \<^verbatim>\<open>1\<close> is answered with 200 and the first
  sample.
\<close>

theorem get_seed_id_counterexample:
  "fst (run down_driver (initial_state None never_connects) []) = [] \<and>
   get_by_id down_driver (snd (run down_driver (initial_state None never_connects) [])) ''1'' =
     (PDict [(''_id'', PStr ''1''), (''name'', PStr ''John Doe''), (''age'', PInt 20)], 200)"
  by code_simp

text \<open>
  Claim C3, amended. After any sequence of requests served from the start of the process,
  an identifier that no Create of the sequence returned and that is none of the
  identifiers \<^verbatim>\<open>1\<close>, \<^verbatim>\<open>2\<close>, \<^verbatim>\<open>3\<close>, \<^verbatim>\<open>4\<close> of the pre-seeded samples is answered
  with 404 and the error body. In connected mode this is so when the collection holds no
  document under the identifier: the lookup returns nothing, or raises, or
  \<^verbatim>\<open>ObjectId\<close> refuses the string.
\<close>

theorem get_unknown_id:
  assumes "run drv (initial_state uri connect) rqs = (issued, st)"
    and "sid \<notin> set issued" and "sid \<notin> {''1'', ''2'', ''3'', ''4''}"
    and "\<forall>c oid doc. active_collection st = Some c \<and> ObjectId drv sid = Inr oid \<longrightarrow>
           find_one drv c oid \<noteq> Inr (Some doc)"
  shows "get_by_id drv st sid = error_response ''Student not found'' 404"
proof -
  let ?st0 = "initial_state uri connect"
  have seed: "SAMPLE_STUDENTS ?st0 = sample_seed" by (rule initial_state_samples)
  have absent: "list_all sample_ok (SAMPLE_STUDENTS st) \<and>
      sid \<notin> sample_id_strings (SAMPLE_STUDENTS st)"
  proof (cases "active_collection ?st0")
    case None
    from run_fallback [OF None _ assms(1)] sample_seed_samples_ok
    have "samples_ok (SAMPLE_STUDENTS st)"
      and "sample_id_strings (SAMPLE_STUDENTS st) \<subseteq> sample_id_strings sample_seed \<union> set issued"
      by (simp_all add: seed)
    with assms(2,3) show ?thesis by (auto simp: samples_ok_def sample_seed_ids)
  next
    case (Some c)
    from run_connected [OF Some assms(1)] have "SAMPLE_STUDENTS st = sample_seed"
      by (simp add: seed)
    with assms(3) show ?thesis by (simp add: sample_seed_ok sample_seed_ids)
  qed
  then have scan: "first_with_id (SAMPLE_STUDENTS st) sid = Inr None"
    using find_id_None_iff [of sid "SAMPLE_STUDENTS st"] by (simp add: first_with_id_ok)
  have "get_student_by_id drv st sid = Inr None"
  proof (cases "active_collection st")
    case None
    with scan show ?thesis by (simp add: get_student_by_id_def)
  next
    case (Some c)
    show ?thesis
    proof (cases "ObjectId drv sid")
      case (Inl e)
      with Some scan show ?thesis by (simp add: get_student_by_id_def)
    next
      case oid: (Inr oid)
      show ?thesis
      proof (cases "find_one drv c oid")
        case (Inl e)
        with Some oid scan show ?thesis by (simp add: get_student_by_id_def)
      next
        case (Inr found)
        with assms(4) Some oid have "found = None" by (cases found) auto
        with Some oid Inr show ?thesis by (simp add: get_student_by_id_def)
      qed
    qed
  qed
  then show ?thesis by (simp add: get_by_id_def)
qed

theorem get_unknown_id_witness:
  "run down_driver (initial_state None never_connects)
     [POST (Inr (PDict [(''name'', PStr ''John Doe''), (''age'', PInt 25)])) ''2024-05-01T10:00:00'',
      DELETE ''5''] =
     ([''5''], fallback_state sample_seed) \<and>
   get_by_id down_driver (fallback_state sample_seed) ''999999'' =
     error_response ''Student not found'' 404 \<and>
   run list_driver (initial_state (Some ''mongodb://db'') connects_empty)
     [POST (Inr (PDict [(''name'', PStr ''John Doe''), (''age'', PInt 25)])) ''2024-05-01T10:00:00''] =
     ([''1''],
      connected_state [(1, [(''name'', PStr ''John Doe''), (''age'', PInt 25),
                            (''created_at'', PDatetime ''2024-05-01T10:00:00'')])]) \<and>
   get_by_id list_driver
     (connected_state [(1, [(''name'', PStr ''John Doe''), (''age'', PInt 25),
                            (''created_at'', PDatetime ''2024-05-01T10:00:00'')])]) ''7'' =
     error_response ''Student not found'' 404"
proof -
  let ?post = "POST (Inr (PDict [(''name'', PStr ''John Doe''), (''age'', PInt 25)]))
      ''2024-05-01T10:00:00''"
  let ?docs = "[(1::nat, [(''name'', PStr ''John Doe''), (''age'', PInt 25),
                            (''created_at'', PDatetime ''2024-05-01T10:00:00'')])]"
  have run1: "run down_driver (initial_state None never_connects) [?post, DELETE ''5''] =
     ([''5''], fallback_state sample_seed)"
    by code_simp
  have run2: "run list_driver (initial_state (Some ''mongodb://db'') connects_empty) [?post] =
     ([''1''], connected_state ?docs)"
    by code_simp
  have none: "\<forall>c oid doc. active_collection (fallback_state sample_seed) = Some c \<and>
      ObjectId down_driver ''999999'' = Inr oid \<longrightarrow> find_one down_driver c oid \<noteq> Inr (Some doc)"
    by (simp add: fallback_state_simps)
  have oid: "ObjectId list_driver ''7'' = Inr 7"
    by code_simp
  have nodoc: "\<forall>c oid doc. active_collection (connected_state ?docs) = Some c \<and>
      ObjectId list_driver ''7'' = Inr oid \<longrightarrow> find_one list_driver c oid \<noteq> Inr (Some doc)"
    by (simp add: connected_state_simps oid) (simp add: list_driver_def)
  have 1: "get_by_id down_driver (fallback_state sample_seed) ''999999'' =
      error_response ''Student not found'' 404"
    by (rule get_unknown_id [OF run1 _ _ none]) simp_all
  have 2: "get_by_id list_driver (connected_state ?docs) ''7'' =
      error_response ''Student not found'' 404"
    by (rule get_unknown_id [OF run2 _ _ nodoc]) simp_all
  from run1 1 run2 2 show ?thesis by (intro conjI)
qed

section \<open>Deleting while the backend fails\<close>

text \<open>
  Claim C4 holds for Create (\<open>add_when_backend_raises\<close>) and fails for DeleteById: when the
  database raises during the deletion, \<^verbatim>\<open>delete_student\<close> catches the exception and
  returns a dictionary with the key \<^verbatim>\<open>error\<close>, which the handler answers with 404.
  The branch of the handler that answers 500 is never taken. Here the server is gone and
  the identifier is a well-formed one.
\<close>

theorem delete_answers_404_when_backend_down:
  "delete down_driver (connected_state ()) ''507f1f77bcf86cd799439011'' =
    (error_response ''Failed to delete student'' 404, connected_state ())"
  by code_simp

section \<open>Searching by name\<close>

text \<open>
  Claim C5: for every query string the fallback search returns exactly the students whose
  name contains the query as a substring ignoring case. What the search computes is
  \<open>search_fallback_filter\<close>: the samples for which the query in lower case occurs in the
  name in lower case. On the strings of this theory (code points below 256) putting a
  string in lower case works character by character, so that a name that contains the
  query also contains it in lower case, and the sample \<^verbatim>\<open>Alice Johnson\<close> is found by
  the three queries of the claim (\<open>alice_johnson_found\<close>). Beyond these code points
  \<^verbatim>\<open>str.lower()\<close> depends on the position: the Greek capital sigma U+03A3 becomes
  U+03C2 at the end of a word and U+03C3 elsewhere. The query of the code points
  U+039F U+0394 U+03A5 U+03A3 is in lower case U+03BF U+03B4 U+03C5 U+03C2, the name
  U+039F U+0394 U+03A5 U+03A3 U+03A3 U+0395 U+0391 U+03A3, which begins with the query, is
  in lower case U+03BF U+03B4 U+03C5 U+03C3 U+03C3 U+03B5 U+03B1 U+03C2, and the first
  does not occur in the second: the student is not returned. So the claim does not hold
  of the code for every query string; no theorem of this theory is given for it.
\<close>

section \<open>Deleting a student\<close>

text \<open>
  Claim C6. In fallback mode, with samples that have distinct identifiers, deleting an
  identifier that a sample has answers 200 with the success message and removes that
  sample and no other; deleting it again answers 404. Deleting an identifier that no
  sample has answers 404 and leaves the state as it was. In connected mode the handler
  answers by the count the database reports: 200 for a deleted document, and then 404
  once the database reports none for the same identifier; an identifier that
  \<^verbatim>\<open>ObjectId\<close> refuses, or for which the database deletes nothing, is answered with
  404 and the state stays the same.
\<close>

theorem delete_twice:
  "(active_collection st = None \<and> samples_ok (SAMPLE_STUDENTS st) \<and>
      sid \<in> sample_id_strings (SAMPLE_STUDENTS st) \<longrightarrow>
      (\<exists>st1. delete drv st sid = ((PDict deleted_message, 200), st1) \<and>
         SAMPLE_STUDENTS st1 =
           filter (\<lambda>s. map_of s ''_id'' \<noteq> Some (PStr sid)) (SAMPLE_STUDENTS st) \<and>
         sid \<notin> sample_id_strings (SAMPLE_STUDENTS st1) \<and>
         delete drv st1 sid = (error_response ''Student not found'' 404, st1))) \<and>
   (active_collection st = None \<and> list_all sample_ok (SAMPLE_STUDENTS st) \<and>
      sid \<notin> sample_id_strings (SAMPLE_STUDENTS st) \<longrightarrow>
      delete drv st sid = (error_response ''Student not found'' 404, st)) \<and>
   (\<forall>c oid n c1. active_collection st = Some c \<and> ObjectId drv sid = Inr oid \<and>
      delete_one drv c oid = Inr (Suc n, c1) \<and> delete_one drv c1 oid = Inr (0, c1) \<longrightarrow>
      delete drv st sid = ((PDict deleted_message, 200), st\<lparr>students_collection := Some c1\<rparr>) \<and>
      delete drv (st\<lparr>students_collection := Some c1\<rparr>) sid =
        (error_response ''Student not found'' 404, st\<lparr>students_collection := Some c1\<rparr>)) \<and>
   (\<forall>c. active_collection st = Some c \<and>
      ((\<exists>e. ObjectId drv sid = Inl e) \<or>
       (\<exists>oid. ObjectId drv sid = Inr oid \<and> delete_one drv c oid = Inr (0, c))) \<longrightarrow>
      snd (fst (delete drv st sid)) = 404 \<and> snd (delete drv st sid) = st)"
proof (intro conjI impI allI)
  assume a: "active_collection st = None \<and> samples_ok (SAMPLE_STUDENTS st) \<and>
      sid \<in> sample_id_strings (SAMPLE_STUDENTS st)"
  let ?rest = "filter (\<lambda>s. map_of s ''_id'' \<noteq> Some (PStr sid)) (SAMPLE_STUDENTS st)"
  let ?st1 = "st\<lparr>SAMPLE_STUDENTS := ?rest\<rparr>"
  from a have first: "delete drv st sid = ((PDict deleted_message, 200), ?st1)"
    by (simp add: delete_of_result delete_student_fallback_present deleted_message_def)
  from a have fb: "active_collection ?st1 = None"
    by (auto simp: active_collection_def split: if_splits)
  from a have "samples_ok ?rest" by (simp add: samples_ok_filter)
  then have ok: "list_all sample_ok (SAMPLE_STUDENTS ?st1)" by (simp add: samples_ok_def)
  have gone: "sid \<notin> sample_id_strings (SAMPLE_STUDENTS ?st1)"
    by (simp add: sample_id_strings_filter)
  have second: "delete drv ?st1 sid = (error_response ''Student not found'' 404, ?st1)"
    by (simp add: delete_of_result delete_student_fallback_absent [OF fb ok gone]
        error_dict_def error_response_def)
  from first gone second
  show "\<exists>st1. delete drv st sid = ((PDict deleted_message, 200), st1) \<and>
         SAMPLE_STUDENTS st1 = ?rest \<and>
         sid \<notin> sample_id_strings (SAMPLE_STUDENTS st1) \<and>
         delete drv st1 sid = (error_response ''Student not found'' 404, st1)"
    by (intro exI [of _ ?st1]) simp
next
  assume "active_collection st = None \<and> list_all sample_ok (SAMPLE_STUDENTS st) \<and>
      sid \<notin> sample_id_strings (SAMPLE_STUDENTS st)"
  then show "delete drv st sid = (error_response ''Student not found'' 404, st)"
    by (simp add: delete_of_result delete_student_fallback_absent error_dict_def
        error_response_def)
next
  fix c oid n c1
  assume a: "active_collection st = Some c \<and> ObjectId drv sid = Inr oid \<and>
      delete_one drv c oid = Inr (Suc n, c1) \<and> delete_one drv c1 oid = Inr (0, c1)"
  then have conn: "active_collection (st\<lparr>students_collection := Some c1\<rparr>) = Some c1"
    by (auto simp: active_collection_def split: if_splits)
  from a show "delete drv st sid =
      ((PDict deleted_message, 200), st\<lparr>students_collection := Some c1\<rparr>)"
    by (simp add: delete_of_result delete_student_def deleted_message_def)
  from a conn show "delete drv (st\<lparr>students_collection := Some c1\<rparr>) sid =
        (error_response ''Student not found'' 404, st\<lparr>students_collection := Some c1\<rparr>)"
    by (simp add: delete_of_result delete_student_def error_dict_def error_response_def)
next
  fix c
  assume a: "active_collection st = Some c \<and>
      ((\<exists>e. ObjectId drv sid = Inl e) \<or>
       (\<exists>oid. ObjectId drv sid = Inr oid \<and> delete_one drv c oid = Inr (0, c)))"
  then have same: "st\<lparr>students_collection := Some c\<rparr> = st"
    by (simp add: active_collection_Some)
  from a same show "snd (fst (delete drv st sid)) = 404"
    by (auto simp: delete_of_result delete_student_def error_dict_def)
  from a same show "snd (delete drv st sid) = st"
    by (auto simp: delete_of_result delete_student_def error_dict_def)
qed

theorem delete_twice_witness:
  "(\<exists>st1. delete down_driver (fallback_state sample_seed) ''2'' =
        ((PDict deleted_message, 200), st1) \<and>
      SAMPLE_STUDENTS st1 = filter (\<lambda>s. map_of s ''_id'' \<noteq> Some (PStr ''2'')) sample_seed \<and>
      ''2'' \<notin> sample_id_strings (SAMPLE_STUDENTS st1) \<and>
      delete down_driver st1 ''2'' = (error_response ''Student not found'' 404, st1)) \<and>
   delete down_driver (fallback_state sample_seed) ''999999'' =
     (error_response ''Student not found'' 404, fallback_state sample_seed) \<and>
   delete list_driver (connected_state [(1, [(''name'', PStr ''Ann''), (''age'', PInt 30)])]) ''1'' =
     ((PDict deleted_message, 200),
      (connected_state [(1, [(''name'', PStr ''Ann''), (''age'', PInt 30)])])
        \<lparr>students_collection := Some []\<rparr>) \<and>
   snd (fst (delete list_driver (connected_state []) ''abc'')) = 404 \<and>
   snd (delete list_driver (connected_state []) ''abc'') = connected_state []"
proof -
  let ?fb = "fallback_state sample_seed"
  let ?c = "[(1::nat, [(''name'', PStr ''Ann''), (''age'', PInt 30)])]"
  have present: "active_collection ?fb = None \<and> samples_ok (SAMPLE_STUDENTS ?fb) \<and>
      ''2'' \<in> sample_id_strings (SAMPLE_STUDENTS ?fb)"
    by (simp add: fallback_state_simps sample_seed_samples_ok)
      (simp add: sample_id_strings_def sample_seed_def)
  have absent: "active_collection ?fb = None \<and> list_all sample_ok (SAMPLE_STUDENTS ?fb) \<and>
      ''999999'' \<notin> sample_id_strings (SAMPLE_STUDENTS ?fb)"
    by (simp add: fallback_state_simps sample_seed_ok)
      (simp add: sample_id_strings_def sample_seed_def)
  have oid: "ObjectId list_driver ''1'' = Inr 1"
    by code_simp
  have counts: "delete_one list_driver ?c 1 = Inr (Suc 0, [])"
    "delete_one list_driver [] 1 = Inr (0, [])"
    by (simp_all add: list_driver_def)
  have deleted: "active_collection (connected_state ?c) = Some ?c \<and>
      ObjectId list_driver ''1'' = Inr 1 \<and>
      delete_one list_driver ?c 1 = Inr (Suc 0, []) \<and> delete_one list_driver [] 1 = Inr (0, [])"
    using oid counts by (simp add: connected_state_simps)
  have "ObjectId list_driver ''abc'' = Inl InvalidId"
    by code_simp
  then have refused: "active_collection (connected_state []) = Some [] \<and>
      ((\<exists>e. ObjectId list_driver ''abc'' = Inl e) \<or>
       (\<exists>oid. ObjectId list_driver ''abc'' = Inr oid \<and> delete_one list_driver [] oid = Inr (0, [])))"
    by (simp add: connected_state_simps)
  note fb = delete_twice [of ?fb "''2''" down_driver]
  note ab = delete_twice [of ?fb "''999999''" down_driver]
  note del = delete_twice [of "connected_state ?c" "''1''" list_driver]
  note ref = delete_twice [of "connected_state []" "''abc''" list_driver]
  from fb [THEN conjunct1, rule_format, OF present]
    ab [THEN conjunct2, THEN conjunct1, rule_format, OF absent]
    del [THEN conjunct2, THEN conjunct2, THEN conjunct1, rule_format, OF deleted]
    ref [THEN conjunct2, THEN conjunct2, THEN conjunct2, rule_format, OF refused]
  show ?thesis by (simp add: fallback_state_simps)
qed

section \<open>Reading while the backend fails\<close>

text \<open>
  Claim C7. In connected mode, when the call to the backend raises during a read, the
  read does not raise: the listing returns the samples as they are, the lookup returns
  the first sample whose \<^verbatim>\<open>_id\<close> is the string asked for, the search returns the
  samples whose name contains the query ignoring case, and none of the three handlers
  answers 500. For the lookup the failure may also be that of \<^verbatim>\<open>ObjectId\<close> on the
  string.
\<close>

theorem reads_swallow_backend_errors:
  assumes "active_collection st = Some c" and "list_all sample_ok (SAMPLE_STUDENTS st)"
  shows
   "(find_all drv c = Inl e \<longrightarrow>
       get_students drv st = SAMPLE_STUDENTS st \<and>
       get_all drv st = (PList (map PDict (SAMPLE_STUDENTS st)), 200)) \<and>
    (ObjectId drv student_id = Inl e \<or>
       (\<exists>oid. ObjectId drv student_id = Inr oid \<and> find_one drv c oid = Inl e) \<longrightarrow>
       get_student_by_id drv st student_id =
         Inr (List.find (\<lambda>s. map_of s ''_id'' = Some (PStr student_id)) (SAMPLE_STUDENTS st)) \<and>
       snd (get_by_id drv st student_id) \<noteq> 500) \<and>
    (find_regex drv c (''.*'' @ query @ ''.*'') = Inl e \<longrightarrow>
       search_students_by_name drv st query =
         Inr (filter (name_contains query) (SAMPLE_STUDENTS st)) \<and>
       snd (get_by_name drv st query) \<noteq> 500)"
proof (intro conjI impI)
  assume "find_all drv c = Inl e"
  with assms(1) show "get_students drv st = SAMPLE_STUDENTS st"
    by (simp add: get_students_def)
  then show "get_all drv st = (PList (map PDict (SAMPLE_STUDENTS st)), 200)"
    by (simp add: get_all_def)
next
  assume "ObjectId drv student_id = Inl e \<or>
       (\<exists>oid. ObjectId drv student_id = Inr oid \<and> find_one drv c oid = Inl e)"
  with assms show look: "get_student_by_id drv st student_id =
         Inr (List.find (\<lambda>s. map_of s ''_id'' = Some (PStr student_id)) (SAMPLE_STUDENTS st))"
    by (auto simp: get_student_by_id_def first_with_id_ok)
  show "snd (get_by_id drv st student_id) \<noteq> 500"
    by (simp add: get_by_id_def look error_response_def split: option.splits)
next
  assume "find_regex drv c (''.*'' @ query @ ''.*'') = Inl e"
  with assms show srch: "search_students_by_name drv st query =
         Inr (filter (name_contains query) (SAMPLE_STUDENTS st))"
    by (simp add: search_students_by_name_def sample_matches_ok)
  show "snd (get_by_name drv st query) \<noteq> 500"
    by (simp add: get_by_name_def srch error_response_def)
qed

theorem reads_swallow_backend_errors_witness:
  "find_all down_driver () = Inl PyMongoError \<and>
   get_all down_driver (connected_state ()) = (PList (map PDict sample_seed), 200) \<and>
   ObjectId down_driver ''3'' = Inr () \<and> find_one down_driver () () = Inl PyMongoError \<and>
   get_student_by_id down_driver (connected_state ()) ''3'' =
     Inr (List.find (\<lambda>s. map_of s ''_id'' = Some (PStr ''3'')) sample_seed) \<and>
   find_regex down_driver () ''.*Alice.*'' = Inl PyMongoError \<and>
   search_students_by_name down_driver (connected_state ()) ''Alice'' =
     Inr (filter (name_contains ''Alice'') sample_seed)"
proof -
  have ok: "list_all sample_ok (SAMPLE_STUDENTS (connected_state ()))"
    by (simp add: connected_state_simps sample_seed_ok)
  have raises: "find_all down_driver () = Inl PyMongoError"
    "ObjectId down_driver ''3'' = Inr ()" "find_one down_driver () () = Inl PyMongoError"
    "find_regex down_driver () (''.*'' @ ''Alice'' @ ''.*'') = Inl PyMongoError"
    by (simp_all add: down_driver_def)
  from reads_swallow_backend_errors [OF connected_state_simps(1) ok,
      of down_driver PyMongoError "''3''" "''Alice''"] raises
  show ?thesis by (simp add: connected_state_simps)
qed

section \<open>The answer to a search\<close>

text \<open>
  Claim C8. When the search yields no student the handler answers 404 with an error body;
  when it yields some it answers 200 with them; and no answer is a 200 with an empty
  array. In fallback mode the search yields no student exactly when no sample's name
  contains the query.
\<close>

theorem get_by_name_status:
  "(search_students_by_name drv st query = Inr [] \<longrightarrow>
      get_by_name drv st query = error_response ''No students found with the given name'' 404) \<and>
   (\<forall>found. search_students_by_name drv st query = Inr found \<and> found \<noteq> [] \<longrightarrow>
      get_by_name drv st query = (PList (map PDict found), 200)) \<and>
   get_by_name drv st query \<noteq> (PList [], 200) \<and>
   (active_collection st = None \<and> list_all sample_ok (SAMPLE_STUDENTS st) \<longrightarrow>
      (snd (get_by_name drv st query) = 404 \<longleftrightarrow>
         (\<forall>s \<in> set (SAMPLE_STUDENTS st). \<not> name_contains query s)) \<and>
      (snd (get_by_name drv st query) = 200 \<longleftrightarrow>
         (\<exists>s \<in> set (SAMPLE_STUDENTS st). name_contains query s)))"
proof -
  have "snd (get_by_name drv st query) = 404 \<longleftrightarrow>
         (\<forall>s \<in> set (SAMPLE_STUDENTS st). \<not> name_contains query s)"
    and "snd (get_by_name drv st query) = 200 \<longleftrightarrow>
         (\<exists>s \<in> set (SAMPLE_STUDENTS st). name_contains query s)"
    if "active_collection st = None" "list_all sample_ok (SAMPLE_STUDENTS st)"
    using that
    by (auto simp: get_by_name_def search_fallback_filter error_response_def filter_empty_conv)
  moreover have "get_by_name drv st query \<noteq> (PList [], 200)"
    by (auto simp: get_by_name_def error_response_def split: sum.splits)
  ultimately show ?thesis
    by (simp add: get_by_name_def)
qed

theorem get_by_name_status_witness:
  "search_students_by_name down_driver (fallback_state sample_seed) ''NonExistentName12345'' = Inr [] \<and>
   get_by_name down_driver (fallback_state sample_seed) ''NonExistentName12345'' =
     error_response ''No students found with the given name'' 404 \<and>
   search_students_by_name down_driver (fallback_state sample_seed) ''ce Jo'' =
     Inr [[(''_id'', PStr ''3''), (''name'', PStr ''Alice Johnson''), (''age'', PInt 19)]] \<and>
   get_by_name down_driver (fallback_state sample_seed) ''ce Jo'' =
     (PList [PDict [(''_id'', PStr ''3''), (''name'', PStr ''Alice Johnson''), (''age'', PInt 19)]], 200)"
proof -
  have 1: "search_students_by_name down_driver (fallback_state sample_seed) ''NonExistentName12345'' = Inr []"
    by code_simp
  have 2: "search_students_by_name down_driver (fallback_state sample_seed) ''ce Jo'' =
     Inr [[(''_id'', PStr ''3''), (''name'', PStr ''Alice Johnson''), (''age'', PInt 19)]]"
    by code_simp
  from get_by_name_status [of down_driver "fallback_state sample_seed" "''NonExistentName12345''"]
    get_by_name_status [of down_driver "fallback_state sample_seed" "''ce Jo''"] 1 2
  show ?thesis by simp
qed

section \<open>Rejecting a body\<close>

text \<open>
  Claim C9, as the specification states it: a body whose age is outside 0..150 is answered
  with 400 and nothing is stored. The age \<^verbatim>\<open>-0.5\<close> is outside the range, but
  \<^verbatim>\<open>int\<close> truncates it to 0 before the range is tested: the answer is 201 and the
  student is stored with age 0.
\<close>

theorem create_fractional_age_counterexample:
  "add down_driver ''2024-05-01T10:00:00'' (fallback_state sample_seed)
     (Inr (PDict [(''name'', PStr ''Bob''), (''age'', PFloat (Finite (- 1 / 2)))])) =
   ((PDict [(''name'', PStr ''Bob''), (''age'', PInt 0),
            (''created_at'', PStr ''2024-05-01T10:00:00''), (''_id'', PStr ''5'')], 201),
    fallback_state (sample_seed @
      [[(''name'', PStr ''Bob''), (''age'', PInt 0),
        (''created_at'', PStr ''2024-05-01T10:00:00''), (''_id'', PStr ''5'')]]))"
  by code_simp

text \<open>
  Claim C9, amended. For a body with both fields: when \<^verbatim>\<open>int\<close> of the age raises
  \<^verbatim>\<open>ValueError\<close> or \<^verbatim>\<open>TypeError\<close>, or the integer it yields is outside 0..150, or
  that integer is within the range and the name is a string of white space only (the
  empty string too), the answer is 400 with an error body and the state is the one
  before the request.
\<close>

theorem create_rejects_invalid:
  assumes "map_of body ''name'' = Some v" and "map_of body ''age'' = Some a"
    and "py_int a = Inl ValueError \<or> py_int a = Inl TypeError \<or>
         (\<exists>n. py_int a = Inr n \<and> (n < 0 \<or> 150 < n)) \<or>
         (\<exists>n s. py_int a = Inr n \<and> v = PStr s \<and> whitespace_only s)"
  shows "add drv now st (Inr (PDict body)) =
    (error_response
       (case py_int a of
          Inl e \<Rightarrow> ''Age must be a valid number''
        | Inr n \<Rightarrow> if n < 0 \<or> 150 < n then ''Age must be between 0 and 150''
                  else ''Name cannot be empty'') 400, st)"
  using assms(3)
  by (auto simp: add_with_fields [OF assms(1,2)] py_strip_empty_iff)

theorem create_rejects_invalid_witness:
  "add down_driver ''2024-05-01T10:00:00'' (fallback_state sample_seed)
     (Inr (PDict [(''name'', PStr ''Jane Doe''), (''age'', PStr ''invalid'')])) =
     (error_response ''Age must be a valid number'' 400, fallback_state sample_seed) \<and>
   add down_driver ''2024-05-01T10:00:00'' (fallback_state sample_seed)
     (Inr (PDict [(''name'', PStr ''Jane Doe''), (''age'', PInt (- 5))])) =
     (error_response ''Age must be between 0 and 150'' 400, fallback_state sample_seed) \<and>
   add down_driver ''2024-05-01T10:00:00'' (fallback_state sample_seed)
     (Inr (PDict [(''name'', PStr ''  ''), (''age'', PInt 25)])) =
     (error_response ''Name cannot be empty'' 400, fallback_state sample_seed)"
proof -
  have invalid: "py_int (PStr ''invalid'') = Inl ValueError"
    by code_simp
  have blank: "whitespace_only ''  ''"
    by (simp add: whitespace_only_def py_isspace_def)
  from create_rejects_invalid [of "[(''name'', PStr ''Jane Doe''), (''age'', PStr ''invalid'')]"
      "PStr ''Jane Doe''" "PStr ''invalid''" down_driver "''2024-05-01T10:00:00''"
      "fallback_state sample_seed"]
    create_rejects_invalid [of "[(''name'', PStr ''Jane Doe''), (''age'', PInt (- 5))]"
      "PStr ''Jane Doe''" "PInt (- 5)" down_driver "''2024-05-01T10:00:00''"
      "fallback_state sample_seed"]
    create_rejects_invalid [of "[(''name'', PStr ''  ''), (''age'', PInt 25)]"
      "PStr ''  ''" "PInt 25" down_driver "''2024-05-01T10:00:00''"
      "fallback_state sample_seed"]
    invalid blank
  show ?thesis by simp
qed

section \<open>A name that is not a string\<close>

text \<open>
  Claim C10. A \<^verbatim>\<open>POST /students\<close> body that has both fields, an integer age between 0
  and 150 and a name that is not a string (a number, \<^verbatim>\<open>null\<close>, a list, an object) is
  answered with status 500 and the message \<^verbatim>\<open>Failed to add student\<close>, not with a 400:
  \<^verbatim>\<open>strip\<close> on the name raises, and only the outer handler catches it. The state is
  the one before the request, so no record is stored.
\<close>

theorem add_name_not_string:
  assumes "map_of body ''name'' = Some v" and "\<nexists>s. v = PStr s"
    and "map_of body ''age'' = Some (PInt age)" and "0 \<le> age" and "age \<le> 150"
  shows "add drv now st (Inr (PDict body)) = (error_response ''Failed to add student'' 500, st)"
proof -
  from assms(2) have "strip_of v = Inl AttributeError" by (cases v) auto
  with assms show ?thesis by (simp add: add_with_fields [OF assms(1) assms(3)])
qed

theorem add_name_not_string_witness:
  "add down_driver ''2024-05-01T10:00:00'' (fallback_state sample_seed)
     (Inr (PDict [(''name'', PInt 5), (''age'', PInt 30)])) =
   (error_response ''Failed to add student'' 500, fallback_state sample_seed)"
  using add_name_not_string [of "[(''name'', PInt 5), (''age'', PInt 30)]" "PInt 5" 30
      down_driver "''2024-05-01T10:00:00''" "fallback_state sample_seed"]
  by simp

end
